theory Spec2Isabelle
  imports Main "HOL-Library.Sublist"
begin

section \<open>Parsed documents\<close>

text \<open>
  The harvester works on what the XML parser returns: a nesting of dictionaries
  (insertion ordered, string keys), lists, strings and \<open>None\<close>. A dictionary is an
  association list in insertion order. A string is a list of Unicode code points.
\<close>

type_synonym ustr = "int list"

datatype py = PNone | PStr ustr | PList "py list" | PDict "(ustr \<times> py) list"

datatype error = AttributeError | IndexError | TransportError

subsection \<open>Strings\<close>

text \<open>
  A string is the list of its code points. \<open>ascii\<close> gives the code points of a literal.
\<close>

definition ascii :: "string \<Rightarrow> ustr" where
  "ascii s = map of_char s"

definition colon :: int where
  "colon = 0x3A"

text \<open>The characters \<open>str.strip()\<close> removes: those for which \<open>str.isspace\<close> holds.\<close>

definition whitespace :: "int list" where
  "whitespace =
     [0x9, 0xA, 0xB, 0xC, 0xD, 0x1C, 0x1D, 0x1E, 0x1F, 0x20,
      0x85, 0xA0, 0x1680, 0x2000, 0x2001, 0x2002, 0x2003, 0x2004, 0x2005, 0x2006,
      0x2007, 0x2008, 0x2009, 0x200A, 0x2028, 0x2029, 0x202F, 0x205F, 0x3000]"

definition is_space :: "int \<Rightarrow> bool" where
  "is_space c = (c \<in> set whitespace)"

definition strip :: "ustr \<Rightarrow> ustr" where
  "strip s = rev (dropWhile is_space (rev (dropWhile is_space s)))"

text \<open>
  \<open>str.lower()\<close>, as far as the harvester can tell: \<open>A\<close> to \<open>Z\<close>, and the two
  characters outside ASCII whose lower case has an ASCII character (U+212A becomes \<open>k\<close>,
  U+0130 becomes \<open>i\<close> and U+0307). Python maps every other character outside ASCII to
  characters outside ASCII; here it is kept, and the harvester only compares lower-cased
  text with ASCII constants.
\<close>

definition lower_char :: "int \<Rightarrow> ustr" where
  "lower_char c =
     (if 65 \<le> c \<and> c \<le> 90 then [c + 32]
      else if c = 0x212A then [0x6B]
      else if c = 0x130 then [0x69, 0x307]
      else [c])"

definition lower :: "ustr \<Rightarrow> ustr" where
  "lower s = concat (map lower_char s)"

text \<open>
  The characters \<open>\d\<close> matches in a pattern on \<open>str\<close>: the decimal digits of Unicode
  (category Nd, Unicode 14.0), which come in blocks of ten from a digit zero.
\<close>

definition decimal_zeros :: "int list" where
  "decimal_zeros =
     [0x30, 0x660, 0x6F0, 0x7C0, 0x966, 0x9E6, 0xA66, 0xAE6,
      0xB66, 0xBE6, 0xC66, 0xCE6, 0xD66, 0xDE6, 0xE50, 0xED0,
      0xF20, 0x1040, 0x1090, 0x17E0, 0x1810, 0x1946, 0x19D0, 0x1A80,
      0x1A90, 0x1B50, 0x1BB0, 0x1C40, 0x1C50, 0xA620, 0xA8D0, 0xA900,
      0xA9D0, 0xA9F0, 0xAA50, 0xABF0, 0xFF10, 0x104A0, 0x10D30, 0x11066,
      0x110F0, 0x11136, 0x111D0, 0x112F0, 0x11450, 0x114D0, 0x11650, 0x116C0,
      0x11730, 0x118E0, 0x11950, 0x11C50, 0x11D50, 0x11DA0, 0x16A60, 0x16AC0,
      0x16B50, 0x1D7CE, 0x1D7D8, 0x1D7E2, 0x1D7EC, 0x1D7F6, 0x1E140, 0x1E2F0,
      0x1E950, 0x1FBF0]"

fun in_blocks :: "int \<Rightarrow> int list \<Rightarrow> bool" where
  "in_blocks c [] = False"
| "in_blocks c (z # zs) = (if z \<le> c \<and> c < z + 10 then True else in_blocks c zs)"

definition is_digit :: "int \<Rightarrow> bool" where
  "is_digit c = in_blocks c decimal_zeros"

fun contains :: "ustr \<Rightarrow> ustr \<Rightarrow> bool" where
  "contains p [] = (p = [])"
| "contains p (c # cs) = (prefix p (c # cs) \<or> contains p cs)"

fun join :: "ustr \<Rightarrow> ustr list \<Rightarrow> ustr" where
  "join sep [] = []"
| "join sep [x] = x"
| "join sep (x # y # ys) = x @ sep @ join sep (y # ys)"

text \<open>\<open>list(dict.fromkeys(xs))\<close>: duplicates removed, first occurrences kept in order.\<close>

definition fromkeys :: "'a list \<Rightarrow> 'a list" where
  "fromkeys xs = foldl (\<lambda>acc x. if x \<in> set acc then acc else acc @ [x]) [] xs"

text \<open>\<open>k.split(":", 1)[1] if ":" in k else k\<close>: the text after the first colon.\<close>

definition strip_prefix :: "ustr \<Rightarrow> ustr" where
  "strip_prefix k = (if colon \<in> set k then tl (dropWhile (\<lambda>c. c \<noteq> colon) k) else k)"

text \<open>\<open>k.split(":")[-1]\<close>: the text after the last colon, the whole key when it has none.\<close>

fun split_on :: "int \<Rightarrow> ustr \<Rightarrow> ustr list" where
  "split_on sep [] = [[]]"
| "split_on sep (c # cs) =
     (if c = sep then [] # split_on sep cs
      else (case split_on sep cs of [] \<Rightarrow> [[c]] | w # ws \<Rightarrow> (c # w) # ws))"

definition local_name :: "ustr \<Rightarrow> ustr" where
  "local_name k = last (split_on colon k)"

subsection \<open>Dictionaries\<close>

text \<open>\<open>d[k] = v\<close>: an existing key keeps its position, a new key goes to the end.\<close>

fun dict_set :: "(ustr \<times> 'v) list \<Rightarrow> ustr \<Rightarrow> 'v \<Rightarrow> (ustr \<times> 'v) list" where
  "dict_set [] k v = [(k, v)]"
| "dict_set ((k', v') # d) k v = (if k' = k then (k, v) # d else (k', v') # dict_set d k v)"

definition dict_of :: "(ustr \<times> 'v) list \<Rightarrow> (ustr \<times> 'v) list" where
  "dict_of kvs = foldl (\<lambda>out kv. dict_set out (fst kv) (snd kv)) [] kvs"

text \<open>\<open>d.get(k)\<close> on a dictionary, \<open>None\<close> when the key is absent.\<close>

definition dict_get :: "(ustr \<times> py) list \<Rightarrow> ustr \<Rightarrow> py" where
  "dict_get d k = (case map_of d k of None \<Rightarrow> PNone | Some v \<Rightarrow> v)"

subsection \<open>Utilities of the harvester\<close>

fun as_list :: "py \<Rightarrow> py list" where
  "as_list PNone = []"
| "as_list (PList xs) = xs"
| "as_list x = [x]"

fun strip_ns :: "py \<Rightarrow> py" where
  "strip_ns (PDict kvs) = PDict (dict_of (map (\<lambda>kv. (strip_prefix (fst kv), strip_ns (snd kv))) kvs))"
| "strip_ns (PList xs) = PList (map strip_ns xs)"
| "strip_ns x = x"

text \<open>The suffix scan shared by \<open>nget\<close> and \<open>get_text\<close>: the first key, in dictionary
  order, whose local name is the queried key.\<close>

fun suffix_scan :: "(ustr \<times> py) list \<Rightarrow> ustr \<Rightarrow> py option" where
  "suffix_scan [] key = None"
| "suffix_scan ((k, v) # d) key = (if local_name k = key then Some v else suffix_scan d key)"

fun nget :: "py \<Rightarrow> ustr \<Rightarrow> py" where
  "nget (PDict d) key =
     (case map_of d key of
        Some v \<Rightarrow> v
      | None \<Rightarrow> (case suffix_scan d key of Some v \<Rightarrow> v | None \<Rightarrow> PNone))"
| "nget x key = PNone"

subsection \<open>Truth values and \<open>str\<close>\<close>

fun truthy :: "py \<Rightarrow> bool" where
  "truthy PNone = False"
| "truthy (PStr s) = (s \<noteq> [])"
| "truthy (PList xs) = (xs \<noteq> [])"
| "truthy (PDict d) = (d \<noteq> [])"

text \<open>An optional string in a condition: \<open>None\<close> and the empty string are false.\<close>

fun nonempty :: "ustr option \<Rightarrow> bool" where
  "nonempty None = False"
| "nonempty (Some s) = (s \<noteq> [])"

text \<open>\<open>x or ""\<close> for an optional string.\<close>

fun or_empty :: "ustr option \<Rightarrow> ustr" where
  "or_empty None = []"
| "or_empty (Some s) = s"

text \<open>\<open>[x for x in xs if x]\<close> for optional strings.\<close>

fun present :: "ustr option list \<Rightarrow> ustr list" where
  "present [] = []"
| "present (None # xs) = present xs"
| "present (Some s # xs) = (if s = [] then present xs else s # present xs)"

text \<open>
  \<open>repr\<close> of a string: double quotes when the string has a single quote and no
  double quote, single quotes otherwise; backslash, the quote, tab, newline and carriage
  return escaped; every other character that is not printable (\<open>str.isprintable\<close>,
  Unicode 14.0) as \<open>\xNN\<close>, \<open>\uNNNN\<close> or \<open>\UNNNNNNNN\<close>.
\<close>

definition nonprintable :: "(int \<times> int) list" where
  "nonprintable =
     [(0x0, 0x1F), (0x7F, 0xA0), (0xAD, 0xAD), (0x378, 0x379), (0x380, 0x383),
      (0x38B, 0x38B), (0x38D, 0x38D), (0x3A2, 0x3A2), (0x530, 0x530), (0x557, 0x558),
      (0x58B, 0x58C), (0x590, 0x590), (0x5C8, 0x5CF), (0x5EB, 0x5EE), (0x5F5, 0x605),
      (0x61C, 0x61C), (0x6DD, 0x6DD), (0x70E, 0x70F), (0x74B, 0x74C), (0x7B2, 0x7BF),
      (0x7FB, 0x7FC), (0x82E, 0x82F), (0x83F, 0x83F), (0x85C, 0x85D), (0x85F, 0x85F),
      (0x86B, 0x86F), (0x88F, 0x897), (0x8E2, 0x8E2), (0x984, 0x984), (0x98D, 0x98E),
      (0x991, 0x992), (0x9A9, 0x9A9), (0x9B1, 0x9B1), (0x9B3, 0x9B5), (0x9BA, 0x9BB),
      (0x9C5, 0x9C6), (0x9C9, 0x9CA), (0x9CF, 0x9D6), (0x9D8, 0x9DB), (0x9DE, 0x9DE),
      (0x9E4, 0x9E5), (0x9FF, 0xA00), (0xA04, 0xA04), (0xA0B, 0xA0E), (0xA11, 0xA12),
      (0xA29, 0xA29), (0xA31, 0xA31), (0xA34, 0xA34), (0xA37, 0xA37), (0xA3A, 0xA3B),
      (0xA3D, 0xA3D), (0xA43, 0xA46), (0xA49, 0xA4A), (0xA4E, 0xA50), (0xA52, 0xA58),
      (0xA5D, 0xA5D), (0xA5F, 0xA65), (0xA77, 0xA80), (0xA84, 0xA84), (0xA8E, 0xA8E),
      (0xA92, 0xA92), (0xAA9, 0xAA9), (0xAB1, 0xAB1), (0xAB4, 0xAB4), (0xABA, 0xABB),
      (0xAC6, 0xAC6), (0xACA, 0xACA), (0xACE, 0xACF), (0xAD1, 0xADF), (0xAE4, 0xAE5),
      (0xAF2, 0xAF8), (0xB00, 0xB00), (0xB04, 0xB04), (0xB0D, 0xB0E), (0xB11, 0xB12),
      (0xB29, 0xB29), (0xB31, 0xB31), (0xB34, 0xB34), (0xB3A, 0xB3B), (0xB45, 0xB46),
      (0xB49, 0xB4A), (0xB4E, 0xB54), (0xB58, 0xB5B), (0xB5E, 0xB5E), (0xB64, 0xB65),
      (0xB78, 0xB81), (0xB84, 0xB84), (0xB8B, 0xB8D), (0xB91, 0xB91), (0xB96, 0xB98),
      (0xB9B, 0xB9B), (0xB9D, 0xB9D), (0xBA0, 0xBA2), (0xBA5, 0xBA7), (0xBAB, 0xBAD),
      (0xBBA, 0xBBD), (0xBC3, 0xBC5), (0xBC9, 0xBC9), (0xBCE, 0xBCF), (0xBD1, 0xBD6),
      (0xBD8, 0xBE5), (0xBFB, 0xBFF), (0xC0D, 0xC0D), (0xC11, 0xC11), (0xC29, 0xC29),
      (0xC3A, 0xC3B), (0xC45, 0xC45), (0xC49, 0xC49), (0xC4E, 0xC54), (0xC57, 0xC57),
      (0xC5B, 0xC5C), (0xC5E, 0xC5F), (0xC64, 0xC65), (0xC70, 0xC76), (0xC8D, 0xC8D),
      (0xC91, 0xC91), (0xCA9, 0xCA9), (0xCB4, 0xCB4), (0xCBA, 0xCBB), (0xCC5, 0xCC5),
      (0xCC9, 0xCC9), (0xCCE, 0xCD4), (0xCD7, 0xCDC), (0xCDF, 0xCDF), (0xCE4, 0xCE5),
      (0xCF0, 0xCF0), (0xCF3, 0xCFF), (0xD0D, 0xD0D), (0xD11, 0xD11), (0xD45, 0xD45),
      (0xD49, 0xD49), (0xD50, 0xD53), (0xD64, 0xD65), (0xD80, 0xD80), (0xD84, 0xD84),
      (0xD97, 0xD99), (0xDB2, 0xDB2), (0xDBC, 0xDBC), (0xDBE, 0xDBF), (0xDC7, 0xDC9),
      (0xDCB, 0xDCE), (0xDD5, 0xDD5), (0xDD7, 0xDD7), (0xDE0, 0xDE5), (0xDF0, 0xDF1),
      (0xDF5, 0xE00), (0xE3B, 0xE3E), (0xE5C, 0xE80), (0xE83, 0xE83), (0xE85, 0xE85),
      (0xE8B, 0xE8B), (0xEA4, 0xEA4), (0xEA6, 0xEA6), (0xEBE, 0xEBF), (0xEC5, 0xEC5),
      (0xEC7, 0xEC7), (0xECE, 0xECF), (0xEDA, 0xEDB), (0xEE0, 0xEFF), (0xF48, 0xF48),
      (0xF6D, 0xF70), (0xF98, 0xF98), (0xFBD, 0xFBD), (0xFCD, 0xFCD), (0xFDB, 0xFFF),
      (0x10C6, 0x10C6), (0x10C8, 0x10CC), (0x10CE, 0x10CF), (0x1249, 0x1249), (0x124E, 0x124F),
      (0x1257, 0x1257), (0x1259, 0x1259), (0x125E, 0x125F), (0x1289, 0x1289), (0x128E, 0x128F),
      (0x12B1, 0x12B1), (0x12B6, 0x12B7), (0x12BF, 0x12BF), (0x12C1, 0x12C1), (0x12C6, 0x12C7),
      (0x12D7, 0x12D7), (0x1311, 0x1311), (0x1316, 0x1317), (0x135B, 0x135C), (0x137D, 0x137F),
      (0x139A, 0x139F), (0x13F6, 0x13F7), (0x13FE, 0x13FF), (0x1680, 0x1680), (0x169D, 0x169F),
      (0x16F9, 0x16FF), (0x1716, 0x171E), (0x1737, 0x173F), (0x1754, 0x175F), (0x176D, 0x176D),
      (0x1771, 0x1771), (0x1774, 0x177F), (0x17DE, 0x17DF), (0x17EA, 0x17EF), (0x17FA, 0x17FF),
      (0x180E, 0x180E), (0x181A, 0x181F), (0x1879, 0x187F), (0x18AB, 0x18AF), (0x18F6, 0x18FF),
      (0x191F, 0x191F), (0x192C, 0x192F), (0x193C, 0x193F), (0x1941, 0x1943), (0x196E, 0x196F),
      (0x1975, 0x197F), (0x19AC, 0x19AF), (0x19CA, 0x19CF), (0x19DB, 0x19DD), (0x1A1C, 0x1A1D),
      (0x1A5F, 0x1A5F), (0x1A7D, 0x1A7E), (0x1A8A, 0x1A8F), (0x1A9A, 0x1A9F), (0x1AAE, 0x1AAF),
      (0x1ACF, 0x1AFF), (0x1B4D, 0x1B4F), (0x1B7F, 0x1B7F), (0x1BF4, 0x1BFB), (0x1C38, 0x1C3A),
      (0x1C4A, 0x1C4C), (0x1C89, 0x1C8F), (0x1CBB, 0x1CBC), (0x1CC8, 0x1CCF), (0x1CFB, 0x1CFF),
      (0x1F16, 0x1F17), (0x1F1E, 0x1F1F), (0x1F46, 0x1F47), (0x1F4E, 0x1F4F), (0x1F58, 0x1F58),
      (0x1F5A, 0x1F5A), (0x1F5C, 0x1F5C), (0x1F5E, 0x1F5E), (0x1F7E, 0x1F7F), (0x1FB5, 0x1FB5),
      (0x1FC5, 0x1FC5), (0x1FD4, 0x1FD5), (0x1FDC, 0x1FDC), (0x1FF0, 0x1FF1), (0x1FF5, 0x1FF5),
      (0x1FFF, 0x200F), (0x2028, 0x202F), (0x205F, 0x206F), (0x2072, 0x2073), (0x208F, 0x208F),
      (0x209D, 0x209F), (0x20C1, 0x20CF), (0x20F1, 0x20FF), (0x218C, 0x218F), (0x2427, 0x243F),
      (0x244B, 0x245F), (0x2B74, 0x2B75), (0x2B96, 0x2B96), (0x2CF4, 0x2CF8), (0x2D26, 0x2D26),
      (0x2D28, 0x2D2C), (0x2D2E, 0x2D2F), (0x2D68, 0x2D6E), (0x2D71, 0x2D7E), (0x2D97, 0x2D9F),
      (0x2DA7, 0x2DA7), (0x2DAF, 0x2DAF), (0x2DB7, 0x2DB7), (0x2DBF, 0x2DBF), (0x2DC7, 0x2DC7),
      (0x2DCF, 0x2DCF), (0x2DD7, 0x2DD7), (0x2DDF, 0x2DDF), (0x2E5E, 0x2E7F), (0x2E9A, 0x2E9A),
      (0x2EF4, 0x2EFF), (0x2FD6, 0x2FEF), (0x2FFC, 0x3000), (0x3040, 0x3040), (0x3097, 0x3098),
      (0x3100, 0x3104), (0x3130, 0x3130), (0x318F, 0x318F), (0x31E4, 0x31EF), (0x321F, 0x321F),
      (0xA48D, 0xA48F), (0xA4C7, 0xA4CF), (0xA62C, 0xA63F), (0xA6F8, 0xA6FF), (0xA7CB, 0xA7CF),
      (0xA7D2, 0xA7D2), (0xA7D4, 0xA7D4), (0xA7DA, 0xA7F1), (0xA82D, 0xA82F), (0xA83A, 0xA83F),
      (0xA878, 0xA87F), (0xA8C6, 0xA8CD), (0xA8DA, 0xA8DF), (0xA954, 0xA95E), (0xA97D, 0xA97F),
      (0xA9CE, 0xA9CE), (0xA9DA, 0xA9DD), (0xA9FF, 0xA9FF), (0xAA37, 0xAA3F), (0xAA4E, 0xAA4F),
      (0xAA5A, 0xAA5B), (0xAAC3, 0xAADA), (0xAAF7, 0xAB00), (0xAB07, 0xAB08), (0xAB0F, 0xAB10),
      (0xAB17, 0xAB1F), (0xAB27, 0xAB27), (0xAB2F, 0xAB2F), (0xAB6C, 0xAB6F), (0xABEE, 0xABEF),
      (0xABFA, 0xABFF), (0xD7A4, 0xD7AF), (0xD7C7, 0xD7CA), (0xD7FC, 0xF8FF), (0xFA6E, 0xFA6F),
      (0xFADA, 0xFAFF), (0xFB07, 0xFB12), (0xFB18, 0xFB1C), (0xFB37, 0xFB37), (0xFB3D, 0xFB3D),
      (0xFB3F, 0xFB3F), (0xFB42, 0xFB42), (0xFB45, 0xFB45), (0xFBC3, 0xFBD2), (0xFD90, 0xFD91),
      (0xFDC8, 0xFDCE), (0xFDD0, 0xFDEF), (0xFE1A, 0xFE1F), (0xFE53, 0xFE53), (0xFE67, 0xFE67),
      (0xFE6C, 0xFE6F), (0xFE75, 0xFE75), (0xFEFD, 0xFF00), (0xFFBF, 0xFFC1), (0xFFC8, 0xFFC9),
      (0xFFD0, 0xFFD1), (0xFFD8, 0xFFD9), (0xFFDD, 0xFFDF), (0xFFE7, 0xFFE7), (0xFFEF, 0xFFFB),
      (0xFFFE, 0xFFFF), (0x1000C, 0x1000C), (0x10027, 0x10027), (0x1003B, 0x1003B), (0x1003E, 0x1003E),
      (0x1004E, 0x1004F), (0x1005E, 0x1007F), (0x100FB, 0x100FF), (0x10103, 0x10106), (0x10134, 0x10136),
      (0x1018F, 0x1018F), (0x1019D, 0x1019F), (0x101A1, 0x101CF), (0x101FE, 0x1027F), (0x1029D, 0x1029F),
      (0x102D1, 0x102DF), (0x102FC, 0x102FF), (0x10324, 0x1032C), (0x1034B, 0x1034F), (0x1037B, 0x1037F),
      (0x1039E, 0x1039E), (0x103C4, 0x103C7), (0x103D6, 0x103FF), (0x1049E, 0x1049F), (0x104AA, 0x104AF),
      (0x104D4, 0x104D7), (0x104FC, 0x104FF), (0x10528, 0x1052F), (0x10564, 0x1056E), (0x1057B, 0x1057B),
      (0x1058B, 0x1058B), (0x10593, 0x10593), (0x10596, 0x10596), (0x105A2, 0x105A2), (0x105B2, 0x105B2),
      (0x105BA, 0x105BA), (0x105BD, 0x105FF), (0x10737, 0x1073F), (0x10756, 0x1075F), (0x10768, 0x1077F),
      (0x10786, 0x10786), (0x107B1, 0x107B1), (0x107BB, 0x107FF), (0x10806, 0x10807), (0x10809, 0x10809),
      (0x10836, 0x10836), (0x10839, 0x1083B), (0x1083D, 0x1083E), (0x10856, 0x10856), (0x1089F, 0x108A6),
      (0x108B0, 0x108DF), (0x108F3, 0x108F3), (0x108F6, 0x108FA), (0x1091C, 0x1091E), (0x1093A, 0x1093E),
      (0x10940, 0x1097F), (0x109B8, 0x109BB), (0x109D0, 0x109D1), (0x10A04, 0x10A04), (0x10A07, 0x10A0B),
      (0x10A14, 0x10A14), (0x10A18, 0x10A18), (0x10A36, 0x10A37), (0x10A3B, 0x10A3E), (0x10A49, 0x10A4F),
      (0x10A59, 0x10A5F), (0x10AA0, 0x10ABF), (0x10AE7, 0x10AEA), (0x10AF7, 0x10AFF), (0x10B36, 0x10B38),
      (0x10B56, 0x10B57), (0x10B73, 0x10B77), (0x10B92, 0x10B98), (0x10B9D, 0x10BA8), (0x10BB0, 0x10BFF),
      (0x10C49, 0x10C7F), (0x10CB3, 0x10CBF), (0x10CF3, 0x10CF9), (0x10D28, 0x10D2F), (0x10D3A, 0x10E5F),
      (0x10E7F, 0x10E7F), (0x10EAA, 0x10EAA), (0x10EAE, 0x10EAF), (0x10EB2, 0x10EFF), (0x10F28, 0x10F2F),
      (0x10F5A, 0x10F6F), (0x10F8A, 0x10FAF), (0x10FCC, 0x10FDF), (0x10FF7, 0x10FFF), (0x1104E, 0x11051),
      (0x11076, 0x1107E), (0x110BD, 0x110BD), (0x110C3, 0x110CF), (0x110E9, 0x110EF), (0x110FA, 0x110FF),
      (0x11135, 0x11135), (0x11148, 0x1114F), (0x11177, 0x1117F), (0x111E0, 0x111E0), (0x111F5, 0x111FF),
      (0x11212, 0x11212), (0x1123F, 0x1127F), (0x11287, 0x11287), (0x11289, 0x11289), (0x1128E, 0x1128E),
      (0x1129E, 0x1129E), (0x112AA, 0x112AF), (0x112EB, 0x112EF), (0x112FA, 0x112FF), (0x11304, 0x11304),
      (0x1130D, 0x1130E), (0x11311, 0x11312), (0x11329, 0x11329), (0x11331, 0x11331), (0x11334, 0x11334),
      (0x1133A, 0x1133A), (0x11345, 0x11346), (0x11349, 0x1134A), (0x1134E, 0x1134F), (0x11351, 0x11356),
      (0x11358, 0x1135C), (0x11364, 0x11365), (0x1136D, 0x1136F), (0x11375, 0x113FF), (0x1145C, 0x1145C),
      (0x11462, 0x1147F), (0x114C8, 0x114CF), (0x114DA, 0x1157F), (0x115B6, 0x115B7), (0x115DE, 0x115FF),
      (0x11645, 0x1164F), (0x1165A, 0x1165F), (0x1166D, 0x1167F), (0x116BA, 0x116BF), (0x116CA, 0x116FF),
      (0x1171B, 0x1171C), (0x1172C, 0x1172F), (0x11747, 0x117FF), (0x1183C, 0x1189F), (0x118F3, 0x118FE),
      (0x11907, 0x11908), (0x1190A, 0x1190B), (0x11914, 0x11914), (0x11917, 0x11917), (0x11936, 0x11936),
      (0x11939, 0x1193A), (0x11947, 0x1194F), (0x1195A, 0x1199F), (0x119A8, 0x119A9), (0x119D8, 0x119D9),
      (0x119E5, 0x119FF), (0x11A48, 0x11A4F), (0x11AA3, 0x11AAF), (0x11AF9, 0x11BFF), (0x11C09, 0x11C09),
      (0x11C37, 0x11C37), (0x11C46, 0x11C4F), (0x11C6D, 0x11C6F), (0x11C90, 0x11C91), (0x11CA8, 0x11CA8),
      (0x11CB7, 0x11CFF), (0x11D07, 0x11D07), (0x11D0A, 0x11D0A), (0x11D37, 0x11D39), (0x11D3B, 0x11D3B),
      (0x11D3E, 0x11D3E), (0x11D48, 0x11D4F), (0x11D5A, 0x11D5F), (0x11D66, 0x11D66), (0x11D69, 0x11D69),
      (0x11D8F, 0x11D8F), (0x11D92, 0x11D92), (0x11D99, 0x11D9F), (0x11DAA, 0x11EDF), (0x11EF9, 0x11FAF),
      (0x11FB1, 0x11FBF), (0x11FF2, 0x11FFE), (0x1239A, 0x123FF), (0x1246F, 0x1246F), (0x12475, 0x1247F),
      (0x12544, 0x12F8F), (0x12FF3, 0x12FFF), (0x1342F, 0x143FF), (0x14647, 0x167FF), (0x16A39, 0x16A3F),
      (0x16A5F, 0x16A5F), (0x16A6A, 0x16A6D), (0x16ABF, 0x16ABF), (0x16ACA, 0x16ACF), (0x16AEE, 0x16AEF),
      (0x16AF6, 0x16AFF), (0x16B46, 0x16B4F), (0x16B5A, 0x16B5A), (0x16B62, 0x16B62), (0x16B78, 0x16B7C),
      (0x16B90, 0x16E3F), (0x16E9B, 0x16EFF), (0x16F4B, 0x16F4E), (0x16F88, 0x16F8E), (0x16FA0, 0x16FDF),
      (0x16FE5, 0x16FEF), (0x16FF2, 0x16FFF), (0x187F8, 0x187FF), (0x18CD6, 0x18CFF), (0x18D09, 0x1AFEF),
      (0x1AFF4, 0x1AFF4), (0x1AFFC, 0x1AFFC), (0x1AFFF, 0x1AFFF), (0x1B123, 0x1B14F), (0x1B153, 0x1B163),
      (0x1B168, 0x1B16F), (0x1B2FC, 0x1BBFF), (0x1BC6B, 0x1BC6F), (0x1BC7D, 0x1BC7F), (0x1BC89, 0x1BC8F),
      (0x1BC9A, 0x1BC9B), (0x1BCA0, 0x1CEFF), (0x1CF2E, 0x1CF2F), (0x1CF47, 0x1CF4F), (0x1CFC4, 0x1CFFF),
      (0x1D0F6, 0x1D0FF), (0x1D127, 0x1D128), (0x1D173, 0x1D17A), (0x1D1EB, 0x1D1FF), (0x1D246, 0x1D2DF),
      (0x1D2F4, 0x1D2FF), (0x1D357, 0x1D35F), (0x1D379, 0x1D3FF), (0x1D455, 0x1D455), (0x1D49D, 0x1D49D),
      (0x1D4A0, 0x1D4A1), (0x1D4A3, 0x1D4A4), (0x1D4A7, 0x1D4A8), (0x1D4AD, 0x1D4AD), (0x1D4BA, 0x1D4BA),
      (0x1D4BC, 0x1D4BC), (0x1D4C4, 0x1D4C4), (0x1D506, 0x1D506), (0x1D50B, 0x1D50C), (0x1D515, 0x1D515),
      (0x1D51D, 0x1D51D), (0x1D53A, 0x1D53A), (0x1D53F, 0x1D53F), (0x1D545, 0x1D545), (0x1D547, 0x1D549),
      (0x1D551, 0x1D551), (0x1D6A6, 0x1D6A7), (0x1D7CC, 0x1D7CD), (0x1DA8C, 0x1DA9A), (0x1DAA0, 0x1DAA0),
      (0x1DAB0, 0x1DEFF), (0x1DF1F, 0x1DFFF), (0x1E007, 0x1E007), (0x1E019, 0x1E01A), (0x1E022, 0x1E022),
      (0x1E025, 0x1E025), (0x1E02B, 0x1E0FF), (0x1E12D, 0x1E12F), (0x1E13E, 0x1E13F), (0x1E14A, 0x1E14D),
      (0x1E150, 0x1E28F), (0x1E2AF, 0x1E2BF), (0x1E2FA, 0x1E2FE), (0x1E300, 0x1E7DF), (0x1E7E7, 0x1E7E7),
      (0x1E7EC, 0x1E7EC), (0x1E7EF, 0x1E7EF), (0x1E7FF, 0x1E7FF), (0x1E8C5, 0x1E8C6), (0x1E8D7, 0x1E8FF),
      (0x1E94C, 0x1E94F), (0x1E95A, 0x1E95D), (0x1E960, 0x1EC70), (0x1ECB5, 0x1ED00), (0x1ED3E, 0x1EDFF),
      (0x1EE04, 0x1EE04), (0x1EE20, 0x1EE20), (0x1EE23, 0x1EE23), (0x1EE25, 0x1EE26), (0x1EE28, 0x1EE28),
      (0x1EE33, 0x1EE33), (0x1EE38, 0x1EE38), (0x1EE3A, 0x1EE3A), (0x1EE3C, 0x1EE41), (0x1EE43, 0x1EE46),
      (0x1EE48, 0x1EE48), (0x1EE4A, 0x1EE4A), (0x1EE4C, 0x1EE4C), (0x1EE50, 0x1EE50), (0x1EE53, 0x1EE53),
      (0x1EE55, 0x1EE56), (0x1EE58, 0x1EE58), (0x1EE5A, 0x1EE5A), (0x1EE5C, 0x1EE5C), (0x1EE5E, 0x1EE5E),
      (0x1EE60, 0x1EE60), (0x1EE63, 0x1EE63), (0x1EE65, 0x1EE66), (0x1EE6B, 0x1EE6B), (0x1EE73, 0x1EE73),
      (0x1EE78, 0x1EE78), (0x1EE7D, 0x1EE7D), (0x1EE7F, 0x1EE7F), (0x1EE8A, 0x1EE8A), (0x1EE9C, 0x1EEA0),
      (0x1EEA4, 0x1EEA4), (0x1EEAA, 0x1EEAA), (0x1EEBC, 0x1EEEF), (0x1EEF2, 0x1EFFF), (0x1F02C, 0x1F02F),
      (0x1F094, 0x1F09F), (0x1F0AF, 0x1F0B0), (0x1F0C0, 0x1F0C0), (0x1F0D0, 0x1F0D0), (0x1F0F6, 0x1F0FF),
      (0x1F1AE, 0x1F1E5), (0x1F203, 0x1F20F), (0x1F23C, 0x1F23F), (0x1F249, 0x1F24F), (0x1F252, 0x1F25F),
      (0x1F266, 0x1F2FF), (0x1F6D8, 0x1F6DC), (0x1F6ED, 0x1F6EF), (0x1F6FD, 0x1F6FF), (0x1F774, 0x1F77F),
      (0x1F7D9, 0x1F7DF), (0x1F7EC, 0x1F7EF), (0x1F7F1, 0x1F7FF), (0x1F80C, 0x1F80F), (0x1F848, 0x1F84F),
      (0x1F85A, 0x1F85F), (0x1F888, 0x1F88F), (0x1F8AE, 0x1F8AF), (0x1F8B2, 0x1F8FF), (0x1FA54, 0x1FA5F),
      (0x1FA6E, 0x1FA6F), (0x1FA75, 0x1FA77), (0x1FA7D, 0x1FA7F), (0x1FA87, 0x1FA8F), (0x1FAAD, 0x1FAAF),
      (0x1FABB, 0x1FABF), (0x1FAC6, 0x1FACF), (0x1FADA, 0x1FADF), (0x1FAE8, 0x1FAEF), (0x1FAF7, 0x1FAFF),
      (0x1FB93, 0x1FB93), (0x1FBCB, 0x1FBEF), (0x1FBFA, 0x1FFFF), (0x2A6E0, 0x2A6FF), (0x2B739, 0x2B73F),
      (0x2B81E, 0x2B81F), (0x2CEA2, 0x2CEAF), (0x2EBE1, 0x2F7FF), (0x2FA1E, 0x2FFFF), (0x3134B, 0xE00FF),
      (0xE01F0, 0x10FFFF)]"

fun in_ranges :: "int \<Rightarrow> (int \<times> int) list \<Rightarrow> bool" where
  "in_ranges c [] = False"
| "in_ranges c (r # rs) = (if fst r \<le> c \<and> c \<le> snd r then True else in_ranges c rs)"

definition is_printable :: "int \<Rightarrow> bool" where
  "is_printable c = (\<not> in_ranges c nonprintable)"

definition hex_digit :: "int \<Rightarrow> int" where
  "hex_digit n = (if n < 10 then 48 + n else 87 + n)"

fun hex :: "nat \<Rightarrow> int \<Rightarrow> ustr" where
  "hex 0 n = []"
| "hex (Suc k) n = hex k (n div 16) @ [hex_digit (n mod 16)]"

definition repr_char :: "int \<Rightarrow> int \<Rightarrow> ustr" where
  "repr_char q c =
     (if c = q \<or> c = 0x5C then [0x5C, c]
      else if c = 0x09 then 0x5C # ascii ''t''
      else if c = 0x0A then 0x5C # ascii ''n''
      else if c = 0x0D then 0x5C # ascii ''r''
      else if is_printable c then [c]
      else if c < 0x100 then 0x5C # ascii ''x'' @ hex 2 c
      else if c < 0x10000 then 0x5C # ascii ''u'' @ hex 4 c
      else 0x5C # ascii ''U'' @ hex 8 c)"

definition repr_str :: "ustr \<Rightarrow> ustr" where
  "repr_str s =
     (let q = (if 0x27 \<in> set s \<and> 0x22 \<notin> set s then 0x22 else 0x27)
      in [q] @ concat (map (repr_char q) s) @ [q])"

fun py_repr :: "py \<Rightarrow> ustr" where
  "py_repr PNone = ascii ''None''"
| "py_repr (PStr s) = repr_str s"
| "py_repr (PList xs) = ascii ''['' @ join (ascii '', '') (map py_repr xs) @ ascii '']''"
| "py_repr (PDict d) =
     ascii ''{'' @ join (ascii '', '') (map (\<lambda>kv. repr_str (fst kv) @ ascii '': '' @ py_repr (snd kv)) d) @ ascii ''}''"

fun py_str :: "py \<Rightarrow> ustr" where
  "py_str (PStr s) = s"
| "py_str x = py_repr x"

subsection \<open>Path lookup\<close>

datatype path_key = Key ustr | Idx int

text \<open>The loop of \<open>get_text\<close> over the path; \<open>None\<close> is its early \<open>return None\<close>.\<close>

fun walk :: "py \<Rightarrow> path_key list \<Rightarrow> py option" where
  "walk cur [] = Some cur"
| "walk PNone (k # ks) = None"
| "walk (PList xs) (Idx i # ks) =
     (if 0 \<le> i \<and> i < int (length xs) then walk (xs ! nat i) ks else None)"
| "walk cur (Idx i # ks) = None"
| "walk (PDict d) (Key key # ks) =
     (case map_of d key of
        Some v \<Rightarrow> walk v ks
      | None \<Rightarrow> (case suffix_scan d key of Some v \<Rightarrow> walk v ks | None \<Rightarrow> None))"
| "walk cur (Key key # ks) = None"

text \<open>The text of the node the path ends at.\<close>

fun text_of :: "py \<Rightarrow> ustr option" where
  "text_of PNone = None"
| "text_of (PDict d) =
     (if map_of d (ascii ''#text'') \<noteq> None \<and> map_of d (ascii ''#text'') \<noteq> Some PNone
      then Some (py_str (dict_get d (ascii ''#text'')))
      else if map_of d (ascii ''text'') \<noteq> None \<and> map_of d (ascii ''text'') \<noteq> Some PNone
      then Some (py_str (dict_get d (ascii ''text'')))
      else None)"
| "text_of (PStr s) = Some s"
| "text_of (PList xs) = None"

definition get_text :: "py \<Rightarrow> path_key list \<Rightarrow> ustr option" where
  "get_text node path = (case walk node path of None \<Rightarrow> None | Some cur \<Rightarrow> text_of cur)"

text \<open>\<open>get_text(v) if isinstance(v, dict) else (str(v) if v is not None else None)\<close>.\<close>

fun node_text :: "py \<Rightarrow> ustr option" where
  "node_text (PDict d) = get_text (PDict d) []"
| "node_text PNone = None"
| "node_text v = Some (py_str v)"

definition join_clean :: "ustr list \<Rightarrow> ustr" where
  "join_clean vals = join (ascii ''; '') (fromkeys (map strip (filter (\<lambda>v. v \<noteq> [] \<and> strip v \<noteq> []) vals)))"

subsection \<open>Raising\<close>

text \<open>A loop whose body may raise: the first error ends it.\<close>

fun emap :: "('a \<Rightarrow> error + 'b) \<Rightarrow> 'a list \<Rightarrow> error + 'b list" where
  "emap f [] = Inr []"
| "emap f (x # xs) =
     (case f x of
        Inl e \<Rightarrow> Inl e
      | Inr y \<Rightarrow> (case emap f xs of Inl e \<Rightarrow> Inl e | Inr ys \<Rightarrow> Inr (y # ys)))"

definition ebind :: "error + 'a \<Rightarrow> ('a \<Rightarrow> error + 'b) \<Rightarrow> error + 'b" where
  "ebind m f = (case m of Inl e \<Rightarrow> Inl e | Inr x \<Rightarrow> f x)"

text \<open>\<open>(n.get(k) or "").m() if isinstance(n, dict) else ""\<close> for a string method
  \<open>m\<close>: a value that is true and not a string has no such method.\<close>

fun attr_with :: "(ustr \<Rightarrow> ustr) \<Rightarrow> py \<Rightarrow> ustr \<Rightarrow> error + ustr" where
  "attr_with m (PDict d) k =
     (if truthy (dict_get d k)
      then (case dict_get d k of PStr s \<Rightarrow> Inr (m s) | _ \<Rightarrow> Inl AttributeError)
      else Inr (m []))"
| "attr_with m n k = Inr []"

definition attr_lower :: "py \<Rightarrow> ustr \<Rightarrow> error + ustr" where
  "attr_lower n k = attr_with lower n k"

section \<open>Field extractors\<close>

subsection \<open>Titles\<close>

text \<open>\<open>" ".join([x for x in [non, t] if x])\<close>, then \<open>": " + sub\<close> when there is a
  subtitle.\<close>

definition compose_title :: "ustr option \<Rightarrow> ustr option \<Rightarrow> ustr option \<Rightarrow> ustr" where
  "compose_title non t sub =
     (let full = join (ascii '' '') (present [non, t])
      in if nonempty sub then full @ ascii '': '' @ or_empty sub else full)"

text \<open>The body of the loop of \<open>extract_title\<close>: what one entry appends, if anything.\<close>

definition title_entry :: "py \<Rightarrow> error + ustr option" where
  "title_entry ti =
     (let t = get_text ti [Key (ascii ''title'')];
          non = get_text ti [Key (ascii ''nonSort'')];
          sub = get_text ti [Key (ascii ''subTitle'')]
      in ebind (attr_lower ti (ascii ''@type'')) (\<lambda>ttype.
           if nonempty t \<and> ttype \<in> set [[], ascii ''translated'']
           then Inr (Some (compose_title non t sub))
           else Inr None))"

definition extract_title :: "py \<Rightarrow> error + ustr" where
  "extract_title mods =
     ebind (emap title_entry (as_list (nget mods (ascii ''titleInfo'')))) (\<lambda>outs.
       Inr (case List.map_filter id outs of [] \<Rightarrow> [] | full # rest \<Rightarrow> full))"

definition variant_entry :: "py \<Rightarrow> error + ustr option" where
  "variant_entry ti =
     ebind (attr_lower ti (ascii ''@type'')) (\<lambda>ttype.
       if ttype \<in> set [ascii ''alternative'', ascii ''translated'', ascii ''uniform'', ascii ''abbreviated'']
       then (let t = get_text ti [Key (ascii ''title'')];
                 non = get_text ti [Key (ascii ''nonSort'')];
                 sub = get_text ti [Key (ascii ''subTitle'')]
             in if nonempty t \<or> nonempty non \<or> nonempty sub
                then (let full = compose_title non t sub
                      in Inr (if full \<noteq> [] then Some full else None))
                else Inr None)
       else Inr None)"

definition extract_variant_titles :: "py \<Rightarrow> error + ustr" where
  "extract_variant_titles mods =
     ebind (emap variant_entry (as_list (nget mods (ascii ''titleInfo'')))) (\<lambda>outs.
       Inr (join_clean (List.map_filter id outs)))"

subsection \<open>Names\<close>

text \<open>One name part of \<open>_display_name_with_dates\<close>: nothing when its text is empty,
  otherwise the text and whether it is a date. The text of a dictionary comes from
  \<open>get_text\<close>, and \<open>strip\<close> is called on whatever that returns.\<close>

definition name_part :: "py \<Rightarrow> error + (bool \<times> ustr) option" where
  "name_part np =
     ebind (case np of
              PDict d \<Rightarrow> (case get_text np [] of None \<Rightarrow> Inl AttributeError | Some s \<Rightarrow> Inr (strip s))
            | PNone \<Rightarrow> Inr (strip [])
            | _ \<Rightarrow> Inr (strip (py_str np))) (\<lambda>txt.
       if txt = [] then Inr None
       else ebind (attr_lower np (ascii ''@type'')) (\<lambda>tp. Inr (Some (tp = ascii ''date'', txt))))"

definition display_name_with_dates :: "py \<Rightarrow> error + ustr" where
  "display_name_with_dates name_node =
     ebind (emap name_part (as_list (nget name_node (ascii ''namePart'')))) (\<lambda>parts.
       let date_parts = map snd (filter fst (List.map_filter id parts));
           other_parts0 = map snd (filter (\<lambda>p. \<not> fst p) (List.map_filter id parts));
           disp = strip (or_empty (get_text name_node [Key (ascii ''displayForm'')]));
           other_parts = (if other_parts0 = [] \<and> disp \<noteq> [] then [disp] else other_parts0);
           name = strip (join (ascii '' '') other_parts)
       in Inr (if date_parts \<noteq> [] then name @ ascii '' ('' @ join (ascii ''; '') date_parts @ ascii '')'' else name))"

definition want_codes :: "ustr list" where
  "want_codes = [ascii ''aut'', ascii ''cmp'', ascii ''cre'', ascii ''prf'', ascii ''voc'']"

definition want_texts :: "ustr list" where
  "want_texts = [ascii ''author'', ascii ''composer'', ascii ''creator'', ascii ''performer'', ascii ''vocalist'', ascii ''singer'', ascii ''voice'']"

text \<open>One role term: whether it sets \<open>is_creator\<close>.\<close>

definition role_term_match :: "py \<Rightarrow> error + bool" where
  "role_term_match rt =
     (let t = lower (strip (or_empty (get_text rt [])))
      in ebind (attr_lower rt (ascii ''@type'')) (\<lambda>tp.
           Inr ((tp = ascii ''code'' \<and> t \<in> set want_codes) \<or> t \<in> set want_texts)))"

definition role_match :: "py \<Rightarrow> error + bool" where
  "role_match role =
     ebind (emap role_term_match (as_list (nget role (ascii ''roleTerm'')))) (\<lambda>bs. Inr (True \<in> set bs))"

definition is_creator :: "py \<Rightarrow> error + bool" where
  "is_creator n =
     ebind (emap role_match (as_list (nget n (ascii ''role'')))) (\<lambda>bs. Inr (True \<in> set bs))"

text \<open>The body of the loop of \<open>extract_creators\<close>.\<close>

definition creator_entry :: "py \<Rightarrow> error + ustr option" where
  "creator_entry n =
     ebind (attr_lower n (ascii ''@type'')) (\<lambda>ntype.
       if ntype \<noteq> [] \<and> ntype \<noteq> ascii ''personal'' then Inr None
       else ebind (is_creator n) (\<lambda>c.
         ebind (if c then Inr True
                else ebind (attr_lower n (ascii ''@usage'')) (\<lambda>usage. Inr (usage = ascii ''primary''))) (\<lambda>keep.
           if \<not> keep then Inr None
           else ebind (display_name_with_dates n) (\<lambda>disp.
             Inr (if disp \<noteq> [] then Some disp else None)))))"

definition extract_creators :: "py \<Rightarrow> error + ustr" where
  "extract_creators mods =
     ebind (emap creator_entry (as_list (nget mods (ascii ''name'')))) (\<lambda>outs.
       Inr (join (ascii ''; '') (fromkeys (List.map_filter id outs))))"

definition personal_entry :: "py \<Rightarrow> error + ustr option" where
  "personal_entry n =
     ebind (attr_lower n (ascii ''@type'')) (\<lambda>ntype.
       if ntype \<noteq> [] \<and> ntype \<noteq> ascii ''personal'' then Inr None
       else ebind (display_name_with_dates n) (\<lambda>disp.
         Inr (if disp \<noteq> [] then Some disp else None)))"

text \<open>The list \<open>names\<close> of \<open>extract_personal_names_split\<close> after its de-duplication.\<close>

definition personal_names :: "py \<Rightarrow> error + ustr list" where
  "personal_names mods =
     ebind (emap personal_entry (as_list (nget mods (ascii ''name'')))) (\<lambda>outs.
       Inr (fromkeys (List.map_filter id outs)))"

definition split_names :: "ustr list \<Rightarrow> ustr \<times> ustr \<times> ustr \<times> ustr" where
  "split_names names =
     (if length names > 0 then names ! 0 else [],
      if length names > 1 then names ! 1 else [],
      if length names > 2 then names ! 2 else [],
      if length names > 3 then join (ascii ''; '') (drop 3 names) else [])"

definition extract_personal_names_split :: "py \<Rightarrow> error + (ustr \<times> ustr \<times> ustr \<times> ustr)" where
  "extract_personal_names_split mods = ebind (personal_names mods) (\<lambda>names. Inr (split_names names))"

text \<open>\<open>xs[0]\<close>.\<close>

fun first :: "'a list \<Rightarrow> error + 'a" where
  "first [] = Inl IndexError"
| "first (x # xs) = Inr x"

definition is_corporate :: "py \<Rightarrow> error + bool" where
  "is_corporate n =
     ebind (attr_lower n (ascii ''@type'')) (\<lambda>ntype.
       if ntype = ascii ''corporate'' then Inr True
       else if ntype = [] \<and> nonempty (get_text n [Key (ascii ''namePart'')])
       then ebind (first (as_list (nget n (ascii ''namePart'')))) (\<lambda>p. Inr (\<not> p = PStr []))
       else Inr False)"

definition corporate_entry :: "py \<Rightarrow> error + ustr option" where
  "corporate_entry n =
     ebind (is_corporate n) (\<lambda>c.
       if c then ebind (display_name_with_dates n) (\<lambda>disp.
                   Inr (if disp \<noteq> [] then Some disp else None))
       else Inr None)"

text \<open>The list \<open>corps\<close> of \<open>extract_corporate_names\<close> after its de-duplication.\<close>

definition corporate_names :: "py \<Rightarrow> error + ustr list" where
  "corporate_names mods =
     ebind (emap corporate_entry (as_list (nget mods (ascii ''name'')))) (\<lambda>outs.
       Inr (fromkeys (List.map_filter id outs)))"

definition extract_corporate_names :: "py \<Rightarrow> error + ustr" where
  "extract_corporate_names mods = ebind (corporate_names mods) (\<lambda>corps. Inr (join (ascii ''; '') corps))"

subsection \<open>Origin, language, type, description, subjects, location\<close>

fun extract_publisher_loop :: "py list \<Rightarrow> ustr" where
  "extract_publisher_loop [] = []"
| "extract_publisher_loop (oi # ois) =
     (let pub = get_text oi [Key (ascii ''publisher'')]
      in if nonempty pub then or_empty pub else extract_publisher_loop ois)"

definition extract_publisher :: "py \<Rightarrow> ustr" where
  "extract_publisher mods = extract_publisher_loop (as_list (nget mods (ascii ''originInfo'')))"

definition place_terms :: "py \<Rightarrow> ustr list" where
  "place_terms pl =
     (let txt = get_text pl [Key (ascii ''placeTerm'')]
      in if \<not> nonempty txt
         then present (map (\<lambda>pt. get_text pt []) (as_list (nget pl (ascii ''placeTerm''))))
         else [or_empty txt])"

definition extract_place :: "py \<Rightarrow> ustr" where
  "extract_place mods =
     join_clean (concat (map (\<lambda>oi. concat (map place_terms (as_list (nget oi (ascii ''place'')))))
                             (as_list (nget mods (ascii ''originInfo'')))))"

text \<open>\<open>for k in keys: for v in as_list(nget(node, k)): ...\<close>, appending every text
  that is not empty.\<close>

definition collect :: "py \<Rightarrow> ustr list \<Rightarrow> ustr list" where
  "collect node keys = concat (map (\<lambda>k. present (map node_text (as_list (nget node k)))) keys)"

definition extract_date :: "py \<Rightarrow> ustr" where
  "extract_date mods =
     join_clean (concat (map (\<lambda>oi. collect oi [ascii ''dateIssued'', ascii ''dateCreated'', ascii ''dateOther''])
                             (as_list (nget mods (ascii ''originInfo'')))))"

definition extract_language :: "py \<Rightarrow> ustr" where
  "extract_language mods =
     join_clean (concat (map (\<lambda>lang. present (map (\<lambda>lt. get_text lt [])
                                                    (as_list (nget lang (ascii ''languageTerm'')))))
                             (as_list (nget mods (ascii ''language'')))))"

definition extract_type_of_resource :: "py \<Rightarrow> ustr" where
  "extract_type_of_resource mods =
     join_clean (present (map node_text (as_list (nget mods (ascii ''typeOfResource'')))))"

definition extract_physical_description :: "py \<Rightarrow> ustr" where
  "extract_physical_description mods =
     join_clean (concat (map (\<lambda>pd. collect pd [ascii ''extent'', ascii ''form'', ascii ''note'', ascii ''internetMediaType''])
                             (as_list (nget mods (ascii ''physicalDescription'')))))"

definition extract_keywords :: "py \<Rightarrow> ustr" where
  "extract_keywords mods =
     join_clean (concat (map (\<lambda>subj.
         collect subj [ascii ''topic'', ascii ''geographic'', ascii ''temporal'', ascii ''genre'']
         @ concat (map (\<lambda>nm. present (map node_text (as_list (nget nm (ascii ''namePart'')))))
                       (as_list (nget subj (ascii ''name'')))))
       (as_list (nget mods (ascii ''subject'')))))"

definition location_repos :: "py \<Rightarrow> ustr list" where
  "location_repos loc =
     present [get_text loc [Key (ascii ''physicalLocation'')]]
     @ present (map (\<lambda>pl. get_text pl []) (as_list (nget loc (ascii ''physicalLocation''))))"

definition location_callnums :: "py \<Rightarrow> ustr list" where
  "location_callnums loc = present (map (\<lambda>sl. get_text sl []) (as_list (nget loc (ascii ''shelfLocator''))))"

definition extract_repository_and_callnum :: "py \<Rightarrow> ustr \<times> ustr" where
  "extract_repository_and_callnum mods =
     (join_clean (concat (map location_repos (as_list (nget mods (ascii ''location''))))),
      join_clean (concat (map location_callnums (as_list (nget mods (ascii ''location''))))))"

subsection \<open>Identifiers and links\<close>

definition issue_entry :: "py \<Rightarrow> error + ustr option" where
  "issue_entry idn =
     ebind (attr_lower idn (ascii ''@type'')) (\<lambda>t.
       let val = node_text idn
       in Inr (if nonempty val \<and> t = ascii ''issue number'' then Some (or_empty val) else None))"

definition extract_issue_number :: "py \<Rightarrow> error + ustr" where
  "extract_issue_number mods =
     ebind (emap issue_entry (as_list (nget mods (ascii ''identifier'')))) (\<lambda>outs.
       Inr (join_clean (List.map_filter id outs)))"

text \<open>\<open>re.search(r"(99\d{14,})", s)\<close>: at the leftmost position where \<open>99\<close> and at
  least fourteen more digits stand, the whole run of digits from there.\<close>

fun find_digits :: "ustr \<Rightarrow> ustr option" where
  "find_digits [] = None"
| "find_digits (c # cs) =
     (if prefix (ascii ''99'') (c # cs) \<and> length (takeWhile is_digit (c # cs)) \<ge> 16
      then Some (takeWhile is_digit (c # cs))
      else find_digits cs)"

text \<open>The inner and the outer loop of the first step of \<open>extract_hollis_number\<close>; the
  empty string is \<open>rid\<close> still unset.\<close>

fun record_identifier_loop :: "py list \<Rightarrow> error + ustr" where
  "record_identifier_loop [] = Inr []"
| "record_identifier_loop (ridnode # rest) =
     (let txt = or_empty (get_text ridnode [])
      in ebind (attr_lower ridnode (ascii ''@source'')) (\<lambda>src.
           if txt \<noteq> [] \<and> (contains (ascii ''alma'') src \<or> prefix (ascii ''99'') txt)
           then Inr txt
           else record_identifier_loop rest))"

fun record_info_loop :: "py list \<Rightarrow> error + ustr" where
  "record_info_loop [] = Inr []"
| "record_info_loop (recinfo # rest) =
     ebind (record_identifier_loop (as_list (nget recinfo (ascii ''recordIdentifier'')))) (\<lambda>rid.
       if rid \<noteq> [] then Inr rid else record_info_loop rest)"

text \<open>The loops of the second and third step: the digits of the first node whose text at
  the path has them.\<close>

fun digits_loop :: "path_key list \<Rightarrow> py list \<Rightarrow> ustr option" where
  "digits_loop path [] = None"
| "digits_loop path (x # xs) =
     (let url = get_text x path
      in if nonempty url \<and> nonempty (find_digits (or_empty url))
         then find_digits (or_empty url)
         else digits_loop path xs)"

definition extract_hollis_number :: "py \<Rightarrow> py \<Rightarrow> error + ustr" where
  "extract_hollis_number mods item =
     ebind (record_info_loop (as_list (nget mods (ascii ''recordInfo'')))) (\<lambda>rid.
       if rid \<noteq> [] then Inr rid
       else (case digits_loop [Key (ascii ''location''), Key (ascii ''url'')] (as_list (nget mods (ascii ''relatedItem''))) of
               Some d \<Rightarrow> Inr d
             | None \<Rightarrow>
                 (case digits_loop [Key (ascii ''librarycloud''), Key (ascii ''originalDocument'')]
                         (as_list (nget mods (ascii ''extension''))) of
                    Some d \<Rightarrow> Inr d
                  | None \<Rightarrow> Inr [])))"

text \<open>\<open>item.get("mods") or {}\<close>.\<close>

fun item_mods :: "py \<Rightarrow> error + py" where
  "item_mods (PDict d) = Inr (if truthy (dict_get d (ascii ''mods'')) then dict_get d (ascii ''mods'') else PDict [])"
| "item_mods x = Inl AttributeError"

fun hollis_link_loop :: "py list \<Rightarrow> error + ustr option" where
  "hollis_link_loop [] = Inr None"
| "hollis_link_loop (rel # rest) =
     ebind (attr_lower rel (ascii ''@otherType'')) (\<lambda>oth.
       if contains (ascii ''hollis'') oth \<and> nonempty (get_text rel [Key (ascii ''location''), Key (ascii ''url'')])
       then Inr (get_text rel [Key (ascii ''location''), Key (ascii ''url'')])
       else hollis_link_loop rest)"

fun first_present :: "ustr option list \<Rightarrow> ustr" where
  "first_present [] = []"
| "first_present (None # xs) = first_present xs"
| "first_present (Some s # xs) = (if s \<noteq> [] then s else first_present xs)"

definition extract_permalink :: "py \<Rightarrow> error + ustr" where
  "extract_permalink item =
     ebind (item_mods item) (\<lambda>mods.
       ebind (hollis_link_loop (as_list (nget mods (ascii ''relatedItem'')))) (\<lambda>link.
         case link of
           Some url \<Rightarrow> Inr url
         | None \<Rightarrow>
             Inr (first_present
                    (concat (map (\<lambda>loc. map (\<lambda>urlnode. get_text urlnode []) (as_list (nget loc (ascii ''url''))))
                                 (as_list (nget mods (ascii ''location''))))))))"

subsection \<open>Tables of contents and notes\<close>

definition extract_tocs :: "py \<Rightarrow> ustr list" where
  "extract_tocs mods = present (map node_text (as_list (nget mods (ascii ''tableOfContents''))))"

definition note_entry :: "py \<Rightarrow> error + ustr option" where
  "note_entry note =
     (let txt = node_text note
      in if nonempty txt
         then ebind (attr_with strip note (ascii ''@type'')) (\<lambda>t.
                Inr (Some (if t \<noteq> [] then t @ ascii '': '' @ or_empty txt else or_empty txt)))
         else Inr None)"

definition extract_notes :: "py \<Rightarrow> error + ustr list" where
  "extract_notes mods =
     ebind (emap note_entry (as_list (nget mods (ascii ''note'')))) (\<lambda>outs. Inr (List.map_filter id outs))"

section \<open>Rows\<close>

text \<open>The dictionary that \<open>row_from_item\<close> returns. Its keys \<open>identifier\<close>, \<open>_tocs\<close>
  and \<open>_notes\<close> are the fields \<open>row_identifier\<close>, \<open>row_tocs\<close> and \<open>row_notes\<close>.\<close>

record row =
  row_identifier :: ustr
  hollis_number :: ustr
  title :: ustr
  variant_title :: ustr
  creator :: ustr
  name1 :: ustr
  name2 :: ustr
  name3 :: ustr
  names_other :: ustr
  corporate_name :: ustr
  publisher :: ustr
  place :: ustr
  date :: ustr
  language :: ustr
  type_of_resource :: ustr
  physical_description :: ustr
  keyword :: ustr
  repository :: ustr
  call_number :: ustr
  issue_number :: ustr
  permalink :: ustr
  row_tocs :: "ustr list"
  row_notes :: "ustr list"

text \<open>The generic identifier: the first identifier with text, else the HOLLIS number.\<close>

definition first_ident :: "py \<Rightarrow> ustr \<Rightarrow> ustr" where
  "first_ident mods hollis =
     (let f = first_present (map node_text (as_list (nget mods (ascii ''identifier''))))
      in if f = [] then hollis else f)"

definition row_from_item :: "py \<Rightarrow> error + row" where
  "row_from_item item =
     ebind (item_mods item) (\<lambda>mods.
     ebind (extract_personal_names_split mods) (\<lambda>(n1, n2, n3, other).
     let (repo, callnum) = extract_repository_and_callnum mods in
     ebind (extract_hollis_number mods item) (\<lambda>hollis.
     ebind (extract_title mods) (\<lambda>ttl.
     ebind (extract_variant_titles mods) (\<lambda>variant.
     ebind (extract_creators mods) (\<lambda>creators.
     ebind (extract_corporate_names mods) (\<lambda>corporate.
     let pub = extract_publisher mods;
         plc = extract_place mods;
         dat = extract_date mods;
         lang = extract_language mods;
         tor = extract_type_of_resource mods;
         phys = extract_physical_description mods;
         kw = extract_keywords mods in
     ebind (extract_issue_number mods) (\<lambda>issue.
     ebind (extract_permalink item) (\<lambda>link.
     ebind (extract_notes mods) (\<lambda>nts.
       Inr \<lparr> row_identifier = first_ident mods hollis, hollis_number = hollis, title = ttl,
             variant_title = variant, creator = creators, name1 = n1, name2 = n2, name3 = n3,
             names_other = other, corporate_name = corporate, publisher = pub, place = plc,
             date = dat, language = lang, type_of_resource = tor, physical_description = phys,
             keyword = kw, repository = repo, call_number = callnum, issue_number = issue,
             permalink = link, row_tocs = extract_tocs mods, row_notes = nts \<rparr>))))))))))"

section \<open>The harvest\<close>

text \<open>
  The key of a row: \<open>row.get("hollis_number") or (row.get("identifier"), row.get("permalink"))\<close>,
  a string or a pair.
\<close>

datatype dedup_key = HollisKey ustr | PairKey ustr ustr

definition row_key :: "row \<Rightarrow> dedup_key" where
  "row_key r =
     (if hollis_number r \<noteq> [] then HollisKey (hollis_number r)
      else PairKey (row_identifier r) (permalink r))"

text \<open>The accumulators of \<open>main\<close>.\<close>

record harvest =
  rows :: "row list"
  max_tocs :: nat
  max_notes :: nat
  written :: nat
  seen_keys :: "dedup_key set"

definition start_state :: harvest where
  "start_state = \<lparr> rows = [], max_tocs = 0, max_notes = 0, written = 0, seen_keys = {} \<rparr>"

definition accept :: "harvest \<Rightarrow> row \<Rightarrow> harvest" where
  "accept st r =
     \<lparr> rows = rows st @ [r],
       max_tocs = max (max_tocs st) (length (row_tocs r)),
       max_notes = max (max_notes st) (length (row_notes r)),
       written = written st + 1,
       seen_keys = insert (row_key r) (seen_keys st) \<rparr>"

lemma ebind_cong [fundef_cong]:
  "m = m' \<Longrightarrow> (\<And>x. m' = Inr x \<Longrightarrow> f x = f' x) \<Longrightarrow> ebind m f = ebind m' f'"
  by (cases m') (simp_all add: ebind_def)

text \<open>The \<open>for\<close> loop over the items of one page, with its \<open>continue\<close> and \<open>break\<close>.\<close>

fun process_items :: "int \<Rightarrow> py list \<Rightarrow> harvest \<Rightarrow> error + harvest" where
  "process_items max_records [] st = Inr st"
| "process_items max_records (it # its) st =
     ebind (row_from_item it) (\<lambda>r.
       if row_key r \<in> seen_keys st then process_items max_records its st
       else (let st' = accept st r
             in if int (written st') \<ge> max_records then Inr st'
                else process_items max_records its st'))"

text \<open>
  The \<open>while\<close> loop over the pages. \<open>fetch start\<close> stands for the request at offset
  \<open>start\<close> followed by \<open>parse_page\<close>: the wrapped items of the page and its
  \<open>numFound\<close>, or the error that ends the run. \<open>limit\<close> is \<open>max(1, min(page_size, 250))\<close>.
\<close>

definition page_limit :: "int \<Rightarrow> nat" where
  "page_limit page_size = nat (max 1 (min page_size 250))"

function harvest_loop ::
  "(nat \<Rightarrow> error + py list \<times> int) \<Rightarrow> int \<Rightarrow> int \<Rightarrow> int \<Rightarrow> nat \<Rightarrow> py list \<Rightarrow> harvest \<Rightarrow> error + harvest" where
  "harvest_loop fetch max_records page_size num_found start items st =
     ebind (process_items max_records items st) (\<lambda>st'.
       if int (written st') \<ge> max_records then Inr st'
       else if int (start + page_limit page_size) \<ge> num_found then Inr st'
       else ebind (fetch (start + page_limit page_size)) (\<lambda>page.
              if fst page = [] then Inr st'
              else harvest_loop fetch max_records page_size num_found
                     (start + page_limit page_size) (fst page) st'))"
  by pat_completeness auto
termination
  by (relation "measure (\<lambda>(fetch, max_records, page_size, num_found, start, items, st).
                           nat (num_found - int start))")
     (auto simp: page_limit_def)

definition harvest_rows :: "(nat \<Rightarrow> error + py list \<times> int) \<Rightarrow> int \<Rightarrow> int \<Rightarrow> error + harvest" where
  "harvest_rows fetch max_records page_size =
     ebind (fetch 0) (\<lambda>page.
       harvest_loop fetch max_records page_size (snd page) 0 (fst page) start_state)"

subsection \<open>The output table\<close>

definition BASE_COLUMNS :: "ustr list" where
  "BASE_COLUMNS =
     [ascii ''identifier'', ascii ''hollis_number'', ascii ''title'', ascii ''variant_title'', ascii ''creator'', ascii ''name1'',
      ascii ''name2'', ascii ''name3'', ascii ''names_other'', ascii ''corporate_name'', ascii ''publisher'', ascii ''place'',
      ascii ''date'', ascii ''language'', ascii ''type_of_resource'', ascii ''physical_description'', ascii ''keyword'',
      ascii ''repository'', ascii ''call_number'', ascii ''issue_number'', ascii ''permalink'']"

text \<open>The string entries of a row, as the dictionary \<open>row_from_item\<close> builds.\<close>

definition row_fields :: "row \<Rightarrow> (ustr \<times> ustr) list" where
  "row_fields r =
     [(ascii ''identifier'', row_identifier r), (ascii ''hollis_number'', hollis_number r),
      (ascii ''title'', title r), (ascii ''variant_title'', variant_title r), (ascii ''creator'', creator r),
      (ascii ''name1'', name1 r), (ascii ''name2'', name2 r), (ascii ''name3'', name3 r),
      (ascii ''names_other'', names_other r), (ascii ''corporate_name'', corporate_name r),
      (ascii ''publisher'', publisher r), (ascii ''place'', place r), (ascii ''date'', date r),
      (ascii ''language'', language r), (ascii ''type_of_resource'', type_of_resource r),
      (ascii ''physical_description'', physical_description r), (ascii ''keyword'', keyword r),
      (ascii ''repository'', repository r), (ascii ''call_number'', call_number r),
      (ascii ''issue_number'', issue_number r), (ascii ''permalink'', permalink r)]"

text \<open>\<open>d.get(k, "")\<close> on a dictionary of strings.\<close>

definition get_or_empty :: "(ustr \<times> ustr) list \<Rightarrow> ustr \<Rightarrow> ustr" where
  "get_or_empty d k = (case map_of d k of None \<Rightarrow> [] | Some v \<Rightarrow> v)"

text \<open>The decimal digits of a number, as \<open>f"toc{i}"\<close> formats it.\<close>

fun str_nat :: "nat \<Rightarrow> ustr" where
  "str_nat n = (if n < 10 then [48 + int n] else str_nat (n div 10) @ [48 + int (n mod 10)])"

definition fieldnames :: "nat \<Rightarrow> nat \<Rightarrow> ustr list" where
  "fieldnames mt mn =
     BASE_COLUMNS @ map (\<lambda>i. (ascii ''toc'') @ str_nat i) [1..<mt + 1] @ map (\<lambda>i. (ascii ''note'') @ str_nat i) [1..<mn + 1]"

text \<open>\<open>xs[i - 1] if i - 1 < len(xs) else ""\<close>, for \<open>i\<close> from 1.\<close>

definition slot :: "ustr list \<Rightarrow> nat \<Rightarrow> ustr" where
  "slot xs i = (if i - 1 < length xs then xs ! (i - 1) else [])"

text \<open>The dictionary \<open>out\<close> of one row: its assignments in order.\<close>

definition out_row :: "nat \<Rightarrow> nat \<Rightarrow> row \<Rightarrow> (ustr \<times> ustr) list" where
  "out_row mt mn r =
     dict_of (map (\<lambda>k. (k, get_or_empty (row_fields r) k)) BASE_COLUMNS
              @ map (\<lambda>i. (ascii ''toc'' @ str_nat i, slot (row_tocs r) i)) [1..<mt + 1]
              @ map (\<lambda>i. (ascii ''note'' @ str_nat i, slot (row_notes r) i)) [1..<mn + 1])"

text \<open>The header and the lines the writer is given: each line has the values of
  \<open>out\<close> in the order of the field names, the empty string for a missing key.\<close>

definition csv_table :: "harvest \<Rightarrow> ustr list \<times> ustr list list" where
  "csv_table st =
     (fieldnames (max_tocs st) (max_notes st),
      map (\<lambda>r. map (get_or_empty (out_row (max_tocs st) (max_notes st) r))
                    (fieldnames (max_tocs st) (max_notes st)))
          (rows st))"

definition main :: "(nat \<Rightarrow> error + py list \<times> int) \<Rightarrow> int \<Rightarrow> int \<Rightarrow> error + ustr list \<times> ustr list list" where
  "main fetch max_records page_size =
     ebind (harvest_rows fetch max_records page_size) (\<lambda>st. Inr (csv_table st))"

section \<open>Predicates on documents\<close>

text \<open>Every key of every dictionary of the tree has at most one colon, as a qualified XML
  name has.\<close>

fun qnames :: "py \<Rightarrow> bool" where
  "qnames (PDict kvs) =
     (\<forall>kv \<in> set kvs. length (filter (\<lambda>c. c = colon) (fst kv)) \<le> 1 \<and> qnames (snd kv))"
| "qnames (PList xs) = (\<forall>x \<in> set xs. qnames x)"
| "qnames x = True"

text \<open>No key of the tree has a colon, and no dictionary has a key twice.\<close>

fun clean :: "py \<Rightarrow> bool" where
  "clean (PDict kvs) =
     (distinct (map fst kvs) \<and> (\<forall>kv \<in> set kvs. colon \<notin> set (fst kv) \<and> clean (snd kv)))"
| "clean (PList xs) = (\<forall>x \<in> set xs. clean x)"
| "clean x = True"

text \<open>
  Attribute values are strings: every key that starts with \<open>@\<close> holds a string or
  \<open>None\<close>, at every level. The XML parser only produces such trees.
\<close>

fun is_scalar :: "py \<Rightarrow> bool" where
  "is_scalar PNone = True"
| "is_scalar (PStr s) = True"
| "is_scalar x = False"

fun str_attrs :: "py \<Rightarrow> bool" where
  "str_attrs (PDict kvs) =
     (\<forall>kv \<in> set kvs. (prefix (ascii ''@'') (fst kv) \<longrightarrow> is_scalar (snd kv)) \<and> str_attrs (snd kv))"
| "str_attrs (PList xs) = (\<forall>x \<in> set xs. str_attrs x)"
| "str_attrs x = True"

text \<open>The string at an attribute of a node; empty when the node is no dictionary or the
  attribute is absent, \<open>None\<close> or no string.\<close>

fun attr_value :: "py \<Rightarrow> ustr \<Rightarrow> ustr" where
  "attr_value (PDict d) k = (case map_of d k of Some (PStr s) \<Rightarrow> s | _ \<Rightarrow> [])"
| "attr_value n k = []"

subsection \<open>Titles\<close>

text \<open>A title entry the Title field accepts: it has title text, and its type attribute
  is absent (or empty) or is \<open>translated\<close>, compared in lower case.\<close>

definition title_accepted :: "py \<Rightarrow> bool" where
  "title_accepted ti =
     (nonempty (get_text ti [Key (ascii ''title'')]) \<and>
      (lower (attr_value ti (ascii ''@type'')) = [] \<or> lower (attr_value ti (ascii ''@type'')) = ascii ''translated''))"

subsection \<open>HOLLIS numbers\<close>


text \<open>A record identifier the first step accepts: it has text, and its source attribute
  mentions \<open>alma\<close> (in any case) or its text begins with \<open>99\<close>.\<close>

definition rid_accepted :: "py \<Rightarrow> bool" where
  "rid_accepted r =
     (or_empty (get_text r []) \<noteq> [] \<and>
      (contains (ascii ''alma'') (lower (attr_value r (ascii ''@source''))) \<or> prefix (ascii ''99'') (or_empty (get_text r []))))"



subsection \<open>Names\<close>

definition name_type :: "py \<Rightarrow> ustr" where
  "name_type n = lower (attr_value n (ascii ''@type''))"

text \<open>A role term that counts: a coded term whose text is one of the codes, or a term
  whose text is one of the words.\<close>

definition term_matches :: "py \<Rightarrow> bool" where
  "term_matches rt =
     (let t = lower (strip (or_empty (get_text rt [])))
      in (lower (attr_value rt (ascii ''@type'')) = ascii ''code'' \<and> t \<in> set want_codes) \<or> t \<in> set want_texts)"

definition role_matches :: "py \<Rightarrow> bool" where
  "role_matches n =
     (\<exists>role \<in> set (as_list (nget n (ascii ''role''))). \<exists>rt \<in> set (as_list (nget role (ascii ''roleTerm''))). term_matches rt)"

text \<open>The stripped text of a name part, and whether a name part that is a dictionary has
  text at all.\<close>

fun part_text :: "py \<Rightarrow> ustr" where
  "part_text (PDict d) = strip (or_empty (get_text (PDict d) []))"
| "part_text PNone = []"
| "part_text np = strip (py_str np)"

fun has_text :: "py \<Rightarrow> bool" where
  "has_text (PDict d) = (get_text (PDict d) [] \<noteq> None)"
| "has_text np = True"

definition parts_ok :: "py \<Rightarrow> bool" where
  "parts_ok n = (\<forall>np \<in> set (as_list (nget n (ascii ''namePart''))). has_text np)"

definition names_ok :: "py \<Rightarrow> bool" where
  "names_ok mods = (\<forall>n \<in> set (as_list (nget mods (ascii ''name''))). parts_ok n)"

definition is_date_part :: "py \<Rightarrow> bool" where
  "is_date_part np = (lower (attr_value np (ascii ''@type'')) = ascii ''date'')"

text \<open>The display string of a name: the name parts that are not dates, in document order,
  joined by spaces (the display form when no such part has text), then the date parts in
  parentheses.\<close>

definition display_form :: "py \<Rightarrow> ustr" where
  "display_form n =
     (let parts = filter (\<lambda>np. part_text np \<noteq> []) (as_list (nget n (ascii ''namePart'')));
          others = map part_text (filter (\<lambda>np. \<not> is_date_part np) parts);
          dates = map part_text (filter is_date_part parts);
          fallback = strip (or_empty (get_text n [Key (ascii ''displayForm'')]));
          shown = (if others = [] \<and> fallback \<noteq> [] then [fallback] else others);
          name = strip (join (ascii '' '') shown)
      in if dates \<noteq> [] then name @ ascii '' ('' @ join (ascii ''; '') dates @ ascii '')'' else name)"

definition personal_included :: "py \<Rightarrow> bool" where
  "personal_included n = ((name_type n = [] \<or> name_type n = ascii ''personal'') \<and> display_form n \<noteq> [])"

definition creator_included :: "py \<Rightarrow> bool" where
  "creator_included n =
     ((name_type n = [] \<or> name_type n = ascii ''personal'') \<and>
      (role_matches n \<or> lower (attr_value n (ascii ''@usage'')) = ascii ''primary'') \<and>
      display_form n \<noteq> [])"

definition corporate_included :: "py \<Rightarrow> bool" where
  "corporate_included n =
     ((name_type n = ascii ''corporate'' \<or> (name_type n = [] \<and> nonempty (get_text n [Key (ascii ''namePart'')]))) \<and>
      display_form n \<noteq> [])"

subsection \<open>The harvest and its table\<close>

definition max_len :: "(row \<Rightarrow> ustr list) \<Rightarrow> row list \<Rightarrow> nat" where
  "max_len f rs = foldr (\<lambda>r m. max (length (f r)) m) rs 0"

definition harvest_inv :: "harvest \<Rightarrow> bool" where
  "harvest_inv st =
     (distinct (map row_key (rows st)) \<and>
      seen_keys st = set (map row_key (rows st)) \<and>
      written st = length (rows st) \<and>
      max_tocs st = max_len row_tocs (rows st) \<and>
      max_notes st = max_len row_notes (rows st))"

definition nat_of_str :: "ustr \<Rightarrow> nat" where
  "nat_of_str s = foldl (\<lambda>a c. 10 * a + nat (c - 48)) 0 s"

text \<open>One line of the table: the base columns, then the numbered slots of the table of
  contents and of the notes.\<close>

definition csv_line :: "nat \<Rightarrow> nat \<Rightarrow> row \<Rightarrow> ustr list" where
  "csv_line mt mn r =
     map (get_or_empty (row_fields r)) BASE_COLUMNS
     @ map (slot (row_tocs r)) [1..<mt + 1]
     @ map (slot (row_notes r)) [1..<mn + 1]"

section \<open>Example records\<close>


definition ex_translated :: py where
  "ex_translated = PDict [(ascii ''@type'', PStr (ascii ''translated'')), (ascii ''title'', PStr (ascii ''X''))]"











definition ex_unlabelled :: py where
  "ex_unlabelled = PDict [(ascii ''name'', PList [PDict [(ascii ''namePart'', PStr (ascii ''Acme Press''))]])]"

definition ex_two_parts :: py where
  "ex_two_parts = PDict [(ascii ''name'', PDict [(ascii ''namePart'', PList [PStr (ascii ''Doe''), PStr (ascii ''Jane'')])])]"

text \<open>\<open><mods><name><namePart type="date"/></name></mods>\<close>, as parsed and wrapped.\<close>

definition ex_empty_part :: py where
  "ex_empty_part =
     PDict [(ascii ''mods'', PDict [(ascii ''name'', PDict [(ascii ''namePart'', PDict [(ascii ''@type'', PStr (ascii ''date''))])])])]"

definition ex_item1 :: py where
  "ex_item1 =
     PDict [(ascii ''mods'',
       PDict [(ascii ''recordInfo'',
                PDict [(ascii ''recordIdentifier'',
                  PDict [(ascii ''@source'', PStr (ascii ''MH:ALMA'')), (ascii ''#text'', PStr (ascii ''990012345670203941''))])]),
              (ascii ''note'', PList [PStr (ascii ''a''), PStr (ascii ''b''), PStr (ascii ''c'')])])]"

definition ex_item2 :: py where
  "ex_item2 =
     PDict [(ascii ''mods'',
       PDict [(ascii ''recordInfo'',
                PDict [(ascii ''recordIdentifier'',
                  PDict [(ascii ''@source'', PStr (ascii ''MH:ALMA'')), (ascii ''#text'', PStr (ascii ''990012345670203941''))])]),
              (ascii ''titleInfo'', PDict [(ascii ''title'', PStr (ascii ''Other''))])])]"

definition ex_item3 :: py where
  "ex_item3 =
     PDict [(ascii ''mods'',
       PDict [(ascii ''identifier'', PStr (ascii ''urn-3:x'')),
              (ascii ''tableOfContents'', PStr (ascii ''ch. 1'')),
              (ascii ''note'', PDict [(ascii ''@type'', PStr (ascii ''bibliography'')), (ascii ''#text'', PStr (ascii ''p. 9''))])])]"

text \<open>Two pages of two records: the second page repeats a record of the first.\<close>

definition ex_fetch :: "nat \<Rightarrow> error + py list \<times> int" where
  "ex_fetch start =
     (if start = 0 then Inr ([ex_item1, ex_item2], 3)
      else if start = 2 then Inr ([ex_item2, ex_item3], 3)
      else Inr ([], 3))"

declare harvest_loop.simps [simp del]

declare str_nat.simps [simp del]

section \<open>Properties\<close>

subsection \<open>Dictionaries\<close>

lemma set_dict_set: "set (dict_set d k v) \<subseteq> insert (k, v) (set d)"
  by (induction d) (auto split: if_splits)

lemma keys_dict_set: "fst ` set (dict_set d k v) = insert k (fst ` set d)"
  by (induction d k v rule: dict_set.induct) (simp_all add: insert_commute)

lemma distinct_dict_set: "distinct (map fst d) \<Longrightarrow> distinct (map fst (dict_set d k v))"
proof (induction d)
  case Nil
  then show ?case by simp
next
  case (Cons a d)
  then show ?case using keys_dict_set [of d k v] by (cases a) auto
qed

lemma dict_set_fresh: "k \<notin> fst ` set d \<Longrightarrow> dict_set d k v = d @ [(k, v)]"
  by (induction d) auto

lemma foldl_dict_set_inv:
  "distinct (map fst acc) \<Longrightarrow>
   distinct (map fst (foldl (\<lambda>out kv. dict_set out (fst kv) (snd kv)) acc kvs)) \<and>
   set (foldl (\<lambda>out kv. dict_set out (fst kv) (snd kv)) acc kvs) \<subseteq> set acc \<union> set kvs"
proof (induction kvs arbitrary: acc)
  case Nil
  then show ?case by simp
next
  case (Cons kv kvs)
  have d: "distinct (map fst (dict_set acc (fst kv) (snd kv)))"
    using Cons.prems by (rule distinct_dict_set)
  have s: "set (dict_set acc (fst kv) (snd kv)) \<subseteq> insert kv (set acc)"
    using set_dict_set [of acc "fst kv" "snd kv"] by simp
  show ?case using Cons.IH [OF d] s by auto
qed

lemma distinct_dict_of: "distinct (map fst (dict_of kvs))"
  using foldl_dict_set_inv [of "[]" kvs] by (simp add: dict_of_def)

lemma set_dict_of: "set (dict_of kvs) \<subseteq> set kvs"
  using foldl_dict_set_inv [of "[]" kvs] by (simp add: dict_of_def)

lemma foldl_dict_set_distinct:
  "distinct (map fst (acc @ kvs)) \<Longrightarrow>
   foldl (\<lambda>out kv. dict_set out (fst kv) (snd kv)) acc kvs = acc @ kvs"
proof (induction kvs arbitrary: acc)
  case Nil
  then show ?case by simp
next
  case (Cons kv kvs)
  have f: "dict_set acc (fst kv) (snd kv) = acc @ [kv]"
    using Cons.prems by (intro trans [OF dict_set_fresh]) auto
  show ?case using Cons.IH [of "acc @ [kv]"] Cons.prems f by simp
qed

lemma dict_of_distinct: "distinct (map fst kvs) \<Longrightarrow> dict_of kvs = kvs"
  using foldl_dict_set_distinct [of "[]" kvs] by (simp add: dict_of_def)

subsection \<open>Tree normalization\<close>

lemma strip_prefix_no_colon:
  "length (filter (\<lambda>c. c = colon) k) \<le> 1 \<Longrightarrow> colon \<notin> set (strip_prefix k)"
proof -
  have "length (filter (\<lambda>c. c = colon) k) \<le> 1 \<Longrightarrow> colon \<in> set k \<Longrightarrow>
        colon \<notin> set (tl (dropWhile (\<lambda>c. c \<noteq> colon) k))"
    by (induction k) (auto simp: filter_empty_conv)
  then show "length (filter (\<lambda>c. c = colon) k) \<le> 1 \<Longrightarrow> colon \<notin> set (strip_prefix k)"
    by (auto simp: strip_prefix_def)
qed

lemma strip_prefix_id: "colon \<notin> set k \<Longrightarrow> strip_prefix k = k"
  by (simp add: strip_prefix_def)

lemma strip_ns_clean: "clean t \<Longrightarrow> strip_ns t = t"
proof (induction t)
  case (PDict kvs)
  have "map (\<lambda>kv. (strip_prefix (fst kv), strip_ns (snd kv))) kvs = kvs"
  proof (rule map_idI)
    fix kv assume kv: "kv \<in> set kvs"
    obtain k v where e: "kv = (k, v)" by (cases kv)
    have "strip_ns v = v" using PDict.IH [of "(k, v)" v] PDict.prems kv e by auto
    moreover have "strip_prefix k = k" using PDict.prems kv e by (auto simp: strip_prefix_id)
    ultimately show "(strip_prefix (fst kv), strip_ns (snd kv)) = kv" using e by simp
  qed
  then show ?case using PDict.prems by (simp add: dict_of_distinct)
next
  case (PList xs)
  then show ?case by (simp add: map_idI)
qed simp_all

lemma clean_strip_ns: "qnames t \<Longrightarrow> clean (strip_ns t)"
proof (induction t)
  case (PDict kvs)
  let ?ps = "map (\<lambda>kv. (strip_prefix (fst kv), strip_ns (snd kv))) kvs"
  have "colon \<notin> set (fst p) \<and> clean (snd p)" if "p \<in> set (dict_of ?ps)" for p
  proof -
    from that set_dict_of [of ?ps] have "p \<in> set ?ps" by blast
    then obtain kv where kv: "kv \<in> set kvs" and p: "p = (strip_prefix (fst kv), strip_ns (snd kv))"
      by auto
    obtain k v where e: "kv = (k, v)" by (cases kv)
    have "clean (strip_ns v)" using PDict.IH [of "(k, v)" v] PDict.prems kv e by auto
    moreover have "colon \<notin> set (strip_prefix k)"
      using PDict.prems kv e by (auto simp: strip_prefix_no_colon)
    ultimately show ?thesis using p e by simp
  qed
  then show ?case by (simp add: distinct_dict_of)
qed simp_all

text \<open>
  C6 (as stated): normalizing any tree twice gives the same tree as normalizing it once.
  It fails for a key with two colons: \<open>strip_ns\<close> removes the text up to the first colon
  only, so \<open>a:b:c\<close> becomes \<open>b:c\<close> and a second pass makes it \<open>c\<close>.
\<close>

theorem strip_ns_not_idempotent:
  "strip_ns (strip_ns (PDict [(ascii ''a:b:c'', PStr (ascii ''v''))])) \<noteq> strip_ns (PDict [(ascii ''a:b:c'', PStr (ascii ''v''))])"
  by code_simp

text \<open>
  C6 (amended): for every tree whose dictionary keys have at most one colon each,
  normalizing twice gives the same tree as normalizing once.
\<close>

theorem strip_ns_idempotent: "qnames t \<Longrightarrow> strip_ns (strip_ns t) = strip_ns t"
  by (rule strip_ns_clean) (rule clean_strip_ns)

theorem strip_ns_idempotent_witness:
  "qnames (PDict [(ascii ''mods:titleInfo'', PList [PDict [(ascii ''mods:title'', PStr (ascii ''X'')), (ascii ''@type'', PNone)]]),
                  (ascii ''titleInfo'', PStr (ascii ''Y''))]) \<and>
   strip_ns (strip_ns (PDict [(ascii ''mods:titleInfo'', PList [PDict [(ascii ''mods:title'', PStr (ascii ''X'')), (ascii ''@type'', PNone)]]),
                              (ascii ''titleInfo'', PStr (ascii ''Y''))])) =
   strip_ns (PDict [(ascii ''mods:titleInfo'', PList [PDict [(ascii ''mods:title'', PStr (ascii ''X'')), (ascii ''@type'', PNone)]]),
                    (ascii ''titleInfo'', PStr (ascii ''Y''))])"
proof -
  have q: "qnames (PDict [(ascii ''mods:titleInfo'', PList [PDict [(ascii ''mods:title'', PStr (ascii ''X'')), (ascii ''@type'', PNone)]]),
                          (ascii ''titleInfo'', PStr (ascii ''Y''))])"
    by code_simp
  show ?thesis using q strip_ns_idempotent [OF q] by simp
qed

subsection \<open>Namespace-insensitive lookup\<close>

lemma split_on_nonempty: "split_on sep s \<noteq> []"
  by (induction s) (auto split: list.splits)

lemma split_on_no_sep: "sep \<notin> set s \<Longrightarrow> split_on sep s = [s]"
  by (induction s) auto

lemma split_on_append: "split_on sep (p @ sep # n) = split_on sep p @ split_on sep n"
  by (induction p) (auto split: list.splits simp: split_on_nonempty)

lemma local_name_plain: "colon \<notin> set k \<Longrightarrow> local_name k = k"
  by (simp add: local_name_def split_on_no_sep)

lemma local_name_qualified: "colon \<notin> set n \<Longrightarrow> local_name (p @ colon # n) = n"
  by (simp add: local_name_def split_on_append split_on_no_sep)

lemma suffix_scan_find:
  "suffix_scan d key = map_option snd (find (\<lambda>kv. local_name (fst kv) = key) d)"
  by (induction d key rule: suffix_scan.induct) auto

text \<open>
  C7: on a dictionary, \<open>nget\<close> returns the value at the exact key when the key is present;
  otherwise the value at the first key, in dictionary order, whose local name is the
  queried key, and \<open>None\<close> when there is none. The local name of a key is the text after
  its last colon (the key itself when it has no colon). So when a dictionary has both
  \<open>p:n\<close> and \<open>n\<close> as keys, the lookup of \<open>p:n\<close> and the lookup of \<open>n\<close> each return the
  value stored at that key.
\<close>

theorem nget_lookup:
  "(map_of d key = Some v \<longrightarrow> nget (PDict d) key = v) \<and>
   (map_of d key = None \<longrightarrow>
      nget (PDict d) key =
        (case find (\<lambda>kv. local_name (fst kv) = key) d of Some kv \<Rightarrow> snd kv | None \<Rightarrow> PNone)) \<and>
   (colon \<notin> set n \<longrightarrow> local_name n = n \<and> local_name (p @ colon # n) = n) \<and>
   (distinct (map fst d) \<and> (p @ colon # n, v1) \<in> set d \<and> (n, v2) \<in> set d \<longrightarrow>
      nget (PDict d) (p @ colon # n) = v1 \<and> nget (PDict d) n = v2)"
  by (auto simp: suffix_scan_find local_name_plain local_name_qualified split: option.splits)

theorem nget_lookup_witness:
  "map_of [(ascii ''mods:title'', PStr (ascii ''A'')), (ascii ''title'', PStr (ascii ''B''))] (ascii ''title'') = Some (PStr (ascii ''B'')) \<and>
   distinct (map fst [(ascii ''mods:title'', PStr (ascii ''A'')), (ascii ''title'', PStr (ascii ''B''))]) \<and>
   nget (PDict [(ascii ''mods:title'', PStr (ascii ''A'')), (ascii ''title'', PStr (ascii ''B''))]) (ascii ''mods:title'') = PStr (ascii ''A'') \<and>
   nget (PDict [(ascii ''mods:title'', PStr (ascii ''A'')), (ascii ''title'', PStr (ascii ''B''))]) (ascii ''title'') = PStr (ascii ''B'') \<and>
   map_of [(ascii ''mods:title'', PStr (ascii ''A'')), (ascii ''x:y:name'', PStr (ascii ''C'')), (ascii ''z:name'', PNone)] (ascii ''name'') = None \<and>
   local_name (ascii ''x:y:name'') = ascii ''name'' \<and>
   nget (PDict [(ascii ''mods:title'', PStr (ascii ''A'')), (ascii ''x:y:name'', PStr (ascii ''C'')), (ascii ''z:name'', PNone)]) (ascii ''name'') = PStr (ascii ''C'')"
proof -
  let ?d = "[(ascii ''mods:title'', PStr (ascii ''A'')), (ascii ''title'', PStr (ascii ''B''))]"
  let ?e = "[(ascii ''mods:title'', PStr (ascii ''A'')), (ascii ''x:y:name'', PStr (ascii ''C'')), (ascii ''z:name'', PNone)]"
  have h: "map_of ?d (ascii ''title'') = Some (PStr (ascii ''B''))" "distinct (map fst ?d)"
    "(ascii ''mods'' @ colon # ascii ''title'', PStr (ascii ''A'')) \<in> set ?d" "(ascii ''title'', PStr (ascii ''B'')) \<in> set ?d"
    "map_of ?e (ascii ''name'') = None" "colon \<notin> set (ascii ''name'')"
    by code_simp+
  have k: "ascii ''x:y'' @ colon # ascii ''name'' = ascii ''x:y:name''"
    "ascii ''mods'' @ colon # ascii ''title'' = ascii ''mods:title''"
    by code_simp+
  have l: "local_name (ascii ''x:y:name'') = ascii ''name''"
    using nget_lookup [of ?e "ascii ''name''" PNone "ascii ''name''" "ascii ''x:y''" PNone PNone] h(6) k(1)
    by simp
  have a: "nget (PDict ?d) (ascii ''mods:title'') = PStr (ascii ''A'') \<and> nget (PDict ?d) (ascii ''title'') = PStr (ascii ''B'')"
    using nget_lookup [of ?d "ascii ''title''" "PStr (ascii ''B'')" "ascii ''title''" "ascii ''mods''" "PStr (ascii ''A'')" "PStr (ascii ''B'')"] h(2,3,4) k(2)
    by simp
  have "nget (PDict ?e) (ascii ''name'') =
        (case find (\<lambda>kv. local_name (fst kv) = ascii ''name'') ?e of Some kv \<Rightarrow> snd kv | None \<Rightarrow> PNone)"
    using nget_lookup [of ?e "ascii ''name''" PNone "ascii ''name''" "ascii ''x:y''" PNone PNone] h(5) by blast
  also have "\<dots> = PStr (ascii ''C'')" by code_simp
  finally show ?thesis using h l a by simp
qed

subsection \<open>Attributes that are strings\<close>

lemma emap_Inr: "(\<And>x. x \<in> set xs \<Longrightarrow> f x = Inr (g x)) \<Longrightarrow> emap f xs = Inr (map g xs)"
  by (induction xs) simp_all

lemma lower_Nil [simp]: "lower [] = []"
  by (simp add: lower_def)

lemma strip_Nil [simp]: "strip [] = []"
  by (simp add: strip_def)

lemma map_of_str_attrs:
  "str_attrs (PDict d) \<Longrightarrow> map_of d k = Some v \<Longrightarrow> str_attrs v \<and> (prefix (ascii ''@'') k \<longrightarrow> is_scalar v)"
  by (auto dest!: map_of_SomeD)

lemma attr_with_str:
  assumes "str_attrs n" and "prefix (ascii ''@'') k" and "m [] = []"
  shows "attr_with m n k = Inr (m (attr_value n k))"
proof (cases n)
  case (PDict d)
  show ?thesis
  proof (cases "map_of d k")
    case None
    then show ?thesis using PDict assms(3) by (simp add: dict_get_def)
  next
    case (Some v)
    then have "is_scalar v" using map_of_str_attrs [of d k v] assms PDict by simp
    then show ?thesis using PDict Some assms(3) by (cases v) (simp_all add: dict_get_def)
  qed
qed (simp_all add: assms(3))

lemma attr_lower_str:
  "str_attrs n \<Longrightarrow> prefix (ascii ''@'') k \<Longrightarrow> attr_lower n k = Inr (lower (attr_value n k))"
  by (simp add: attr_lower_def attr_with_str)

lemma attr_key [simp]: "prefix (ascii ''@'') (ascii (CHR ''@'' # k))"
  by (simp add: ascii_def)

lemma suffix_scan_mem: "suffix_scan d key = Some v \<Longrightarrow> v \<in> snd ` set d"
  by (induction d key rule: suffix_scan.induct) (auto split: if_splits)

lemma str_attrs_nget: "str_attrs n \<Longrightarrow> str_attrs (nget n k)"
proof (cases n)
  case (PDict d)
  assume a: "str_attrs n"
  show ?thesis
  proof (cases "map_of d k")
    case None
    show ?thesis
    proof (cases "suffix_scan d k")
      case N2: None
      then show ?thesis using PDict None by simp
    next
      case (Some v)
      then have "v \<in> snd ` set d" by (rule suffix_scan_mem)
      then have "str_attrs v" using a PDict by auto
      then show ?thesis using PDict None Some by simp
    qed
  next
    case (Some v)
    then show ?thesis using a PDict map_of_str_attrs [of d k v] by simp
  qed
qed simp_all

lemma str_attrs_as_list: "str_attrs v \<Longrightarrow> x \<in> set (as_list v) \<Longrightarrow> str_attrs x"
  by (cases v) auto

lemma str_attrs_children: "str_attrs n \<Longrightarrow> x \<in> set (as_list (nget n k)) \<Longrightarrow> str_attrs x"
  using str_attrs_nget str_attrs_as_list by blast

lemma map_filter_id_map: "List.map_filter id (map g xs) = List.map_filter g xs"
  by (induction xs) (simp_all add: List.map_filter_simps split: option.splits)


lemma map_filter_if:
  "List.map_filter (\<lambda>x. if P x then Some (f x) else None) xs = map f (filter P xs)"
  by (induction xs) (simp_all add: List.map_filter_simps)

lemma find_append:
  "find P (xs @ ys) = (case find P xs of None \<Rightarrow> find P ys | Some x \<Rightarrow> Some x)"
  by (induction xs) simp_all

lemma foldl_fromkeys_set:
  "set (foldl (\<lambda>acc x. if x \<in> set acc then acc else acc @ [x]) acc xs) = set acc \<union> set xs"
  by (induction xs arbitrary: acc) auto

lemma set_fromkeys: "set (fromkeys xs) = set xs"
  by (simp add: fromkeys_def foldl_fromkeys_set)

subsection \<open>Titles\<close>

lemma title_entry_str:
  "str_attrs ti \<Longrightarrow>
   title_entry ti =
     Inr (if title_accepted ti
          then Some (compose_title (get_text ti [Key (ascii ''nonSort'')]) (get_text ti [Key (ascii ''title'')])
                                   (get_text ti [Key (ascii ''subTitle'')]))
          else None)"
  by (simp add: title_entry_def attr_lower_str ebind_def title_accepted_def Let_def)




text \<open>
  C8 (as stated): no type attribute value is accepted by both the Title and the
  Variant-Title extractor. It fails for \<open>translated\<close>, which both filters list: a single
  title entry of that type is the Title and also the Variant-Title.
\<close>

theorem title_variant_both_translated:
  "extract_title (PDict [(ascii ''titleInfo'', ex_translated)]) = Inr (ascii ''X'') \<and>
   extract_variant_titles (PDict [(ascii ''titleInfo'', ex_translated)]) = Inr (ascii ''X'')"
  by code_simp

text \<open>
  C8 (amended): the only type attribute value both extractors accept is \<open>translated\<close>
  (compared in lower case): a title entry that contributes to the Title field and to the
  Variant-Title field has that type, so an entry of any other type contributes to at most
  one of the two.
\<close>

theorem title_variant_overlap:
  "title_entry ti = Inr (Some a) \<Longrightarrow> variant_entry ti = Inr (Some b) \<Longrightarrow>
   attr_lower ti (ascii ''@type'') = Inr (ascii ''translated'')"
  by (cases "attr_lower ti (ascii ''@type'')")
     (auto simp: title_entry_def variant_entry_def ebind_def Let_def ascii_def split: if_splits)

theorem title_variant_overlap_witness:
  "title_entry ex_translated = Inr (Some (ascii ''X'')) \<and> variant_entry ex_translated = Inr (Some (ascii ''X'')) \<and>
   attr_lower ex_translated (ascii ''@type'') = Inr (ascii ''translated'')"
proof -
  have t: "title_entry ex_translated = Inr (Some (ascii ''X''))" by code_simp
  have v: "variant_entry ex_translated = Inr (Some (ascii ''X''))" by code_simp
  show ?thesis using t v title_variant_overlap [OF t v] by simp
qed

subsection \<open>HOLLIS numbers\<close>






lemma rid_loop_find:
  "(\<forall>r \<in> set rs. str_attrs r) \<Longrightarrow>
   record_identifier_loop rs =
     Inr (case find rid_accepted rs of None \<Rightarrow> [] | Some r \<Rightarrow> or_empty (get_text r []))"
  by (induction rs) (auto simp: attr_lower_str ebind_def rid_accepted_def Let_def)

lemma rid_accepted_text: "find rid_accepted rs = Some r \<Longrightarrow> or_empty (get_text r []) \<noteq> []"
  by (auto simp: find_Some_iff rid_accepted_def)

lemma record_info_loop_find:
  "(\<forall>ri \<in> set ris. str_attrs ri) \<Longrightarrow>
   record_info_loop ris =
     Inr (case find rid_accepted (concat (map (\<lambda>ri. as_list (nget ri (ascii ''recordIdentifier''))) ris)) of
            None \<Rightarrow> []
          | Some r \<Rightarrow> or_empty (get_text r []))"
proof (induction ris)
  case Nil
  then show ?case by simp
next
  case (Cons ri ris)
  let ?rs = "as_list (nget ri (ascii ''recordIdentifier''))"
  have "\<forall>r \<in> set ?rs. str_attrs r" using Cons.prems str_attrs_children by auto
  then have l: "record_identifier_loop ?rs =
     Inr (case find rid_accepted ?rs of None \<Rightarrow> [] | Some r \<Rightarrow> or_empty (get_text r []))"
    by (rule rid_loop_find)
  show ?case
  proof (cases "find rid_accepted ?rs")
    case None
    then show ?thesis using l Cons by (simp add: ebind_def find_append)
  next
    case (Some r)
    then show ?thesis using l rid_accepted_text [OF Some] by (simp add: ebind_def find_append)
  qed
qed




subsection \<open>Names\<close>

lemma name_part_str:
  "str_attrs np \<Longrightarrow> has_text np \<Longrightarrow>
   name_part np = Inr (if part_text np = [] then None else Some (is_date_part np, part_text np))"
  by (cases np) (auto simp: name_part_def ebind_def attr_lower_str is_date_part_def)

lemma display_name_str:
  assumes "str_attrs n" and "parts_ok n"
  shows "display_name_with_dates n = Inr (display_form n)"
proof -
  let ?ps = "as_list (nget n (ascii ''namePart''))"
  let ?g = "\<lambda>np. if part_text np \<noteq> [] then Some (is_date_part np, part_text np) else None"
  have "emap name_part ?ps = Inr (map ?g ?ps)"
  proof (rule emap_Inr)
    fix np assume "np \<in> set ?ps"
    then have "str_attrs np" and "has_text np"
      using assms str_attrs_children by (auto simp: parts_ok_def)
    then show "name_part np = Inr (?g np)" by (simp add: name_part_str)
  qed
  then have e: "emap name_part ?ps = Inr (map ?g ?ps)" .
  let ?F = "filter (\<lambda>np. part_text np \<noteq> []) ?ps"
  have m: "List.map_filter id (map ?g ?ps) = map (\<lambda>np. (is_date_part np, part_text np)) ?F"
    by (simp only: map_filter_id_map map_filter_if)
  have d: "map snd (filter fst (map (\<lambda>np. (is_date_part np, part_text np)) xs)) =
           map part_text (filter is_date_part xs)" for xs
    by (induction xs) simp_all
  have o: "map snd (filter (\<lambda>p. \<not> fst p) (map (\<lambda>np. (is_date_part np, part_text np)) xs)) =
           map part_text (filter (\<lambda>np. \<not> is_date_part np) xs)" for xs
    by (induction xs) simp_all
  show ?thesis
    unfolding display_name_with_dates_def display_form_def e ebind_def sum.case m d o Let_def
    by (rule refl)
qed

lemma role_term_match_str: "str_attrs rt \<Longrightarrow> role_term_match rt = Inr (term_matches rt)"
  by (simp add: role_term_match_def term_matches_def attr_lower_str ebind_def Let_def)

lemma role_match_str:
  assumes "str_attrs role"
  shows "role_match role = Inr (\<exists>rt \<in> set (as_list (nget role (ascii ''roleTerm''))). term_matches rt)"
proof -
  have "emap role_term_match (as_list (nget role (ascii ''roleTerm''))) =
        Inr (map term_matches (as_list (nget role (ascii ''roleTerm''))))"
    using assms by (intro emap_Inr role_term_match_str) (rule str_attrs_children)
  then show ?thesis by (auto simp: role_match_def ebind_def)
qed

lemma is_creator_str:
  assumes "str_attrs n"
  shows "is_creator n = Inr (role_matches n)"
proof -
  have "emap role_match (as_list (nget n (ascii ''role''))) =
        Inr (map (\<lambda>role. \<exists>rt \<in> set (as_list (nget role (ascii ''roleTerm''))). term_matches rt)
                 (as_list (nget n (ascii ''role''))))"
    using assms by (intro emap_Inr role_match_str) (rule str_attrs_children)
  then show ?thesis by (auto simp: is_creator_def ebind_def role_matches_def)
qed

lemma creator_entry_str:
  "str_attrs n \<Longrightarrow> parts_ok n \<Longrightarrow>
   creator_entry n = Inr (if creator_included n then Some (display_form n) else None)"
  by (simp add: creator_entry_def attr_lower_str is_creator_str display_name_str ebind_def
                creator_included_def name_type_def)

lemma personal_entry_str:
  "str_attrs n \<Longrightarrow> parts_ok n \<Longrightarrow>
   personal_entry n = Inr (if personal_included n then Some (display_form n) else None)"
  by (simp add: personal_entry_def attr_lower_str display_name_str ebind_def
                personal_included_def name_type_def)

lemma walk_key_nget:
  "walk n [Key k] \<noteq> None \<Longrightarrow> walk n [Key k] = Some (nget n k)"
  by (cases n) (auto split: option.splits)

lemma get_text_key: "nonempty (get_text n [Key k]) \<Longrightarrow> get_text n [Key k] = text_of (nget n k)"
  using walk_key_nget [of n k] by (cases "walk n [Key k]") (auto simp: get_text_def)

lemma first_of_text: "nonempty (text_of v) \<Longrightarrow> \<exists>p. first (as_list v) = Inr p \<and> p \<noteq> PStr []"
  by (cases v) auto

lemma is_corporate_str:
  assumes "str_attrs n"
  shows "is_corporate n =
         Inr (name_type n = ascii ''corporate'' \<or> (name_type n = [] \<and> nonempty (get_text n [Key (ascii ''namePart'')])))"
proof (cases "nonempty (get_text n [Key (ascii ''namePart'')])")
  case True
  then have "nonempty (text_of (nget n (ascii ''namePart'')))" using get_text_key by metis
  then obtain p where "first (as_list (nget n (ascii ''namePart''))) = Inr p" and "p \<noteq> PStr []"
    using first_of_text by blast
  then show ?thesis using assms True
    by (simp add: is_corporate_def attr_lower_str ebind_def name_type_def)
next
  case False
  then show ?thesis using assms
    by (simp add: is_corporate_def attr_lower_str ebind_def name_type_def)
qed

lemma corporate_entry_str:
  "str_attrs n \<Longrightarrow> parts_ok n \<Longrightarrow>
   corporate_entry n = Inr (if corporate_included n then Some (display_form n) else None)"
  by (simp add: corporate_entry_def is_corporate_str display_name_str ebind_def corporate_included_def)

lemma names_str:
  assumes "str_attrs mods" and "\<forall>n \<in> set (as_list (nget mods (ascii ''name''))). parts_ok n"
  shows "emap creator_entry (as_list (nget mods (ascii ''name''))) =
           Inr (map (\<lambda>n. if creator_included n then Some (display_form n) else None) (as_list (nget mods (ascii ''name''))))"
    and "emap personal_entry (as_list (nget mods (ascii ''name''))) =
           Inr (map (\<lambda>n. if personal_included n then Some (display_form n) else None) (as_list (nget mods (ascii ''name''))))"
    and "emap corporate_entry (as_list (nget mods (ascii ''name''))) =
           Inr (map (\<lambda>n. if corporate_included n then Some (display_form n) else None) (as_list (nget mods (ascii ''name''))))"
  using assms str_attrs_children
  by (auto intro!: emap_Inr creator_entry_str personal_entry_str corporate_entry_str)

lemma extract_creators_str:
  assumes "str_attrs mods" and "\<forall>n \<in> set (as_list (nget mods (ascii ''name''))). parts_ok n"
  shows "extract_creators mods =
         Inr (join (ascii ''; '') (fromkeys (map display_form (filter creator_included (as_list (nget mods (ascii ''name'')))))))"
  using names_str(1) [OF assms]
  by (simp add: extract_creators_def ebind_def map_filter_id_map map_filter_if)

lemma personal_names_str:
  assumes "str_attrs mods" and "\<forall>n \<in> set (as_list (nget mods (ascii ''name''))). parts_ok n"
  shows "personal_names mods =
         Inr (fromkeys (map display_form (filter personal_included (as_list (nget mods (ascii ''name''))))))"
  using names_str(2) [OF assms]
  by (simp add: personal_names_def ebind_def map_filter_id_map map_filter_if)

lemma corporate_names_str:
  assumes "str_attrs mods" and "\<forall>n \<in> set (as_list (nget mods (ascii ''name''))). parts_ok n"
  shows "corporate_names mods =
         Inr (fromkeys (map display_form (filter corporate_included (as_list (nget mods (ascii ''name''))))))"
  using names_str(3) [OF assms]
  by (simp add: corporate_names_def ebind_def map_filter_id_map map_filter_if)


text \<open>
  The white space that \<open>strip\<close> removes is Unicode white space: of three names with no
  type whose name parts are NO-BREAK SPACE (U+00A0), \<open>Doe\<close> followed by NO-BREAK SPACE, and
  \<open>Doe\<close>, the first has no display string and the other two have the same one.
\<close>

lemma names_no_break_space:
  "extract_personal_names_split
     (PDict [(ascii ''name'',
        PList [PDict [(ascii ''namePart'', PStr [0xA0])],
               PDict [(ascii ''namePart'', PStr (ascii ''Doe'' @ [0xA0]))],
               PDict [(ascii ''namePart'', PStr (ascii ''Doe''))]])]) =
   Inr (ascii ''Doe'', [], [], [])"
  by code_simp




lemma split_names_mem:
  "d \<in> set names \<Longrightarrow>
   (case split_names names of
      (n1, n2, n3, other) \<Rightarrow>
        d = n1 \<or> d = n2 \<or> d = n3 \<or> (d \<in> set (drop 3 names) \<and> other = join (ascii ''; '') (drop 3 names)))"
proof -
  assume a: "d \<in> set names"
  have "names = take 3 names @ drop 3 names" by simp
  then have "d \<in> set (take 3 names) \<or> d \<in> set (drop 3 names)"
    using a by (metis Un_iff set_append)
  then show ?thesis
  proof
    assume "d \<in> set (take 3 names)"
    then obtain i where "i < length (take 3 names)" and "take 3 names ! i = d"
      by (auto simp: in_set_conv_nth)
    then have i: "i < 3" "i < length names" and d: "d = names ! i" by auto
    from i(1) consider "i = 0" | "i = 1" | "i = 2" by linarith
    then show ?thesis using i(2) d by cases (auto simp: split_names_def)
  next
    assume b: "d \<in> set (drop 3 names)"
    then have "3 < length names" by (cases "3 < length names") auto
    then show ?thesis using b by (simp add: split_names_def)
  qed
qed

text \<open>
  C10 (as stated): a name entry with no type attribute whose first name part resolves to
  text that is not empty is both corporate and personal. It fails when the name parts are
  a repeated group: the corporate test reads the text at \<open>namePart\<close> with \<open>get_text\<close>,
  which is \<open>None\<close> for a list, so the name \<open>Doe\<close>, \<open>Jane\<close> is personal only.
\<close>

theorem names_not_both:
  "get_text (PDict [(ascii ''namePart'', PList [PStr (ascii ''Doe''), PStr (ascii ''Jane'')])]) [Key (ascii ''namePart''), Idx 0] = Some (ascii ''Doe'') \<and>
   extract_personal_names_split ex_two_parts = Inr (ascii ''Doe Jane'', [], [], []) \<and>
   extract_corporate_names ex_two_parts = Inr []"
  by code_simp

text \<open>
  C10 (amended): in a record whose attribute values are strings and whose name parts have
  text, a name entry with no type attribute (absent, \<open>None\<close> or empty) whose
  \<open>namePart\<close> is a single element with text that is not empty, and whose display string is
  not empty, is both corporate and personal: its display string is one of the names joined
  into the corporate_name column and one of the names split into name1, name2, name3 and
  names_other (every name of the split list is one of the first three columns or one of the
  names joined into the fourth).
\<close>

theorem names_overlap:
  "(str_attrs mods \<and> names_ok mods \<and> n \<in> set (as_list (nget mods (ascii ''name''))) \<and>
    attr_value n (ascii ''@type'') = [] \<and> nonempty (get_text n [Key (ascii ''namePart'')]) \<and> display_form n \<noteq> [] \<longrightarrow>
      (\<exists>corps names.
         corporate_names mods = Inr corps \<and> extract_corporate_names mods = Inr (join (ascii ''; '') corps) \<and>
         display_form n \<in> set corps \<and>
         personal_names mods = Inr names \<and> extract_personal_names_split mods = Inr (split_names names) \<and>
         display_form n \<in> set names)) \<and>
   (d \<in> set names \<longrightarrow>
      (case split_names names of
         (n1, n2, n3, other) \<Rightarrow>
           d = n1 \<or> d = n2 \<or> d = n3 \<or> (d \<in> set (drop 3 names) \<and> other = join (ascii ''; '') (drop 3 names))))"
proof (rule conjI)
  show "str_attrs mods \<and> names_ok mods \<and> n \<in> set (as_list (nget mods (ascii ''name''))) \<and>
    attr_value n (ascii ''@type'') = [] \<and> nonempty (get_text n [Key (ascii ''namePart'')]) \<and> display_form n \<noteq> [] \<longrightarrow>
      (\<exists>corps names.
         corporate_names mods = Inr corps \<and> extract_corporate_names mods = Inr (join (ascii ''; '') corps) \<and>
         display_form n \<in> set corps \<and>
         personal_names mods = Inr names \<and> extract_personal_names_split mods = Inr (split_names names) \<and>
         display_form n \<in> set names)"
  proof
    assume a: "str_attrs mods \<and> names_ok mods \<and> n \<in> set (as_list (nget mods (ascii ''name''))) \<and>
      attr_value n (ascii ''@type'') = [] \<and> nonempty (get_text n [Key (ascii ''namePart'')]) \<and> display_form n \<noteq> []"
    then have ok: "\<forall>n \<in> set (as_list (nget mods (ascii ''name''))). parts_ok n" by (simp add: names_ok_def)
    let ?cs = "fromkeys (map display_form (filter corporate_included (as_list (nget mods (ascii ''name'')))))"
    let ?ns = "fromkeys (map display_form (filter personal_included (as_list (nget mods (ascii ''name'')))))"
    have c: "corporate_names mods = Inr ?cs" using a ok corporate_names_str by blast
    have p: "personal_names mods = Inr ?ns" using a ok personal_names_str by blast
    have "corporate_included n" "personal_included n"
      using a by (simp_all add: corporate_included_def personal_included_def name_type_def)
    then have "display_form n \<in> set ?cs" "display_form n \<in> set ?ns"
      using a by (auto simp: set_fromkeys)
    then show "\<exists>corps names.
         corporate_names mods = Inr corps \<and> extract_corporate_names mods = Inr (join (ascii ''; '') corps) \<and>
         display_form n \<in> set corps \<and>
         personal_names mods = Inr names \<and> extract_personal_names_split mods = Inr (split_names names) \<and>
         display_form n \<in> set names"
      using c p by (simp add: extract_corporate_names_def extract_personal_names_split_def ebind_def)
  qed
next
  show "d \<in> set names \<longrightarrow>
      (case split_names names of
         (n1, n2, n3, other) \<Rightarrow>
           d = n1 \<or> d = n2 \<or> d = n3 \<or> (d \<in> set (drop 3 names) \<and> other = join (ascii ''; '') (drop 3 names)))"
    by (rule impI) (erule split_names_mem)
qed

theorem names_overlap_witness:
  "str_attrs ex_unlabelled \<and> names_ok ex_unlabelled \<and>
   attr_value (PDict [(ascii ''namePart'', PStr (ascii ''Acme Press''))]) (ascii ''@type'') = [] \<and>
   display_form (PDict [(ascii ''namePart'', PStr (ascii ''Acme Press''))]) = ascii ''Acme Press'' \<and>
   extract_corporate_names ex_unlabelled = Inr (ascii ''Acme Press'') \<and>
   extract_personal_names_split ex_unlabelled = Inr (ascii ''Acme Press'', [], [], []) \<and>
   (\<exists>corps names. corporate_names ex_unlabelled = Inr corps \<and> ascii ''Acme Press'' \<in> set corps \<and>
      personal_names ex_unlabelled = Inr names \<and> ascii ''Acme Press'' \<in> set names)"
proof -
  let ?n = "PDict [(ascii ''namePart'', PStr (ascii ''Acme Press''))]"
  have h: "str_attrs ex_unlabelled" "names_ok ex_unlabelled"
    "?n \<in> set (as_list (nget ex_unlabelled (ascii ''name'')))" "attr_value ?n (ascii ''@type'') = []"
    "nonempty (get_text ?n [Key (ascii ''namePart'')])" "display_form ?n = ascii ''Acme Press''"
    by code_simp+
  have nz: "display_form ?n \<noteq> []" by code_simp
  have e: "extract_corporate_names ex_unlabelled = Inr (ascii ''Acme Press'')"
    "extract_personal_names_split ex_unlabelled = Inr (ascii ''Acme Press'', [], [], [])"
    by code_simp+
  have "\<exists>corps names.
         corporate_names ex_unlabelled = Inr corps \<and> extract_corporate_names ex_unlabelled = Inr (join (ascii ''; '') corps) \<and>
         display_form ?n \<in> set corps \<and>
         personal_names ex_unlabelled = Inr names \<and> extract_personal_names_split ex_unlabelled = Inr (split_names names) \<and>
         display_form ?n \<in> set names"
    using names_overlap [of ex_unlabelled ?n] h(1-5) nz by blast
  then show ?thesis using h e by auto
qed

subsection \<open>Row assembly\<close>

text \<open>
  Where every attribute value is a string and every name part that is a dictionary has text,
  no extractor raises and \<open>row_from_item\<close> returns a row.
\<close>

lemma emap_returns: "(\<And>x. x \<in> set xs \<Longrightarrow> \<exists>y. f x = Inr y) \<Longrightarrow> \<exists>ys. emap f xs = Inr ys"
proof (induction xs)
  case Nil
  then show ?case by simp
next
  case (Cons x xs)
  obtain y where "f x = Inr y" using Cons.prems by force
  moreover obtain ys where "emap f xs = Inr ys" using Cons by force
  ultimately show ?case by simp
qed

lemma variant_entry_returns: "str_attrs ti \<Longrightarrow> \<exists>v. variant_entry ti = Inr v"
  by (simp add: variant_entry_def attr_lower_str ebind_def Let_def)

lemma issue_entry_returns: "str_attrs idn \<Longrightarrow> \<exists>v. issue_entry idn = Inr v"
  by (simp add: issue_entry_def attr_lower_str ebind_def Let_def)

lemma note_entry_returns: "str_attrs note \<Longrightarrow> \<exists>v. note_entry note = Inr v"
  by (simp add: note_entry_def attr_with_str ebind_def Let_def)

lemma hollis_link_loop_returns:
  "(\<forall>r \<in> set rs. str_attrs r) \<Longrightarrow> \<exists>v. hollis_link_loop rs = Inr v"
  by (induction rs) (auto simp: attr_lower_str ebind_def)

lemma extract_hollis_number_returns:
  assumes "str_attrs mods"
  shows "\<exists>h. extract_hollis_number mods item = Inr h"
proof -
  have "\<forall>ri \<in> set (as_list (nget mods (ascii ''recordInfo''))). str_attrs ri"
    using assms str_attrs_children by blast
  then obtain rid where "record_info_loop (as_list (nget mods (ascii ''recordInfo''))) = Inr rid"
    using record_info_loop_find by blast
  then show ?thesis
    by (simp add: extract_hollis_number_def ebind_def split: option.splits)
qed

lemma row_from_item_returns:
  assumes "str_attrs mods" and "names_ok mods"
  shows "\<exists>r. row_from_item (PDict [(ascii ''mods'', mods)]) = Inr r"
proof -
  define m where "m = (if truthy mods then mods else PDict [])"
  have im: "item_mods (PDict [(ascii ''mods'', mods)]) = Inr m" by (simp add: m_def dict_get_def)
  have sa: "str_attrs m" using assms(1) by (simp add: m_def)
  have ok: "\<forall>n \<in> set (as_list (nget m (ascii ''name''))). parts_ok n"
    using assms(2) by (simp add: m_def names_ok_def)
  have ch: "\<And>k x. x \<in> set (as_list (nget m k)) \<Longrightarrow> str_attrs x"
    using sa str_attrs_children by blast
  obtain p where p: "extract_personal_names_split m = Inr p"
    using personal_names_str [OF sa ok] by (simp add: extract_personal_names_split_def ebind_def)
  obtain h where h: "extract_hollis_number m (PDict [(ascii ''mods'', mods)]) = Inr h"
    using extract_hollis_number_returns [OF sa] by blast
  obtain t where t: "extract_title m = Inr t"
    using emap_Inr [of "as_list (nget m (ascii ''titleInfo''))" title_entry, OF title_entry_str] ch
    by (simp add: extract_title_def ebind_def)
  obtain v where v: "extract_variant_titles m = Inr v"
    using emap_returns [of "as_list (nget m (ascii ''titleInfo''))" variant_entry] variant_entry_returns ch
    by (auto simp: extract_variant_titles_def ebind_def)
  obtain c where c: "extract_creators m = Inr c"
    using extract_creators_str [OF sa ok] by simp
  obtain co where co: "extract_corporate_names m = Inr co"
    using corporate_names_str [OF sa ok] by (simp add: extract_corporate_names_def ebind_def)
  obtain i where i: "extract_issue_number m = Inr i"
    using emap_returns [of "as_list (nget m (ascii ''identifier''))" issue_entry] issue_entry_returns ch
    by (auto simp: extract_issue_number_def ebind_def)
  obtain lk where lk: "hollis_link_loop (as_list (nget m (ascii ''relatedItem''))) = Inr lk"
    using hollis_link_loop_returns [of "as_list (nget m (ascii ''relatedItem''))"] ch by blast
  have "\<exists>l. extract_permalink (PDict [(ascii ''mods'', mods)]) = Inr l"
    unfolding extract_permalink_def im ebind_def sum.case lk by (cases lk) simp_all
  then obtain l where l: "extract_permalink (PDict [(ascii ''mods'', mods)]) = Inr l" by blast
  obtain n where n: "extract_notes m = Inr n"
    using emap_returns [of "as_list (nget m (ascii ''note''))" note_entry] note_entry_returns ch
    by (auto simp: extract_notes_def ebind_def)
  show ?thesis
    unfolding row_from_item_def using im p h t v c co i l n
    by (simp add: ebind_def split: prod.splits)
qed

text \<open>
  C9: building a row never raises. It fails on a name part that is an element with an
  attribute and no text: \<open>get_text\<close> returns \<open>None\<close> for it and
  \<open>_display_name_with_dates\<close> calls \<open>strip\<close> on that, so \<open>row_from_item\<close> raises
  \<open>AttributeError\<close>. The other branch of the same expression and the neighbouring
  lookups guard against \<open>None\<close>.
\<close>

theorem row_from_item_raises: "row_from_item ex_empty_part = Inl AttributeError"
  by code_simp

subsection \<open>The harvest\<close>

lemma max_len_snoc: "max_len f (rs @ [r]) = max (max_len f rs) (length (f r))"
  by (induction rs) (auto simp: max_len_def)

lemma max_len_Max: "max_len f rs = Max (insert 0 (set (map (\<lambda>r. length (f r)) rs)))"
proof (induction rs)
  case Nil
  then show ?case by (simp add: max_len_def)
next
  case (Cons a rs)
  let ?S = "insert 0 (set (map (\<lambda>r. length (f r)) rs))"
  have "insert 0 (set (map (\<lambda>r. length (f r)) (a # rs))) = insert (length (f a)) ?S"
    by (simp only: list.map list.set insert_commute)
  moreover have "Max (insert (length (f a)) ?S) = max (length (f a)) (Max ?S)"
    by (rule Max_insert) simp_all
  moreover have "max_len f (a # rs) = max (length (f a)) (max_len f rs)"
    by (simp add: max_len_def)
  ultimately show ?case using Cons.IH by (simp only:)
qed

lemma inv_start: "harvest_inv start_state"
  by (simp add: harvest_inv_def start_state_def max_len_def)

lemma inv_accept: "harvest_inv st \<Longrightarrow> row_key r \<notin> seen_keys st \<Longrightarrow> harvest_inv (accept st r)"
  by (auto simp: harvest_inv_def accept_def max_len_snoc)

lemma process_items_inv:
  "harvest_inv st \<Longrightarrow> process_items mr its st = Inr st' \<Longrightarrow> harvest_inv st'"
proof (induction its arbitrary: st)
  case Nil
  then show ?case by simp
next
  case (Cons it its)
  from Cons.prems(2) obtain r where r: "row_from_item it = Inr r"
    by (cases "row_from_item it") (auto simp: ebind_def)
  show ?case
  proof (cases "row_key r \<in> seen_keys st")
    case True
    then show ?thesis using Cons r by (simp add: ebind_def)
  next
    case False
    then have i: "harvest_inv (accept st r)" using Cons.prems(1) by (rule inv_accept [rotated])
    show ?thesis
    proof (cases "int (written (accept st r)) \<ge> mr")
      case True
      then show ?thesis using Cons.prems(2) r False i by (simp add: ebind_def)
    next
      case F2: False
      then have "process_items mr its (accept st r) = Inr st'"
        using Cons.prems(2) r False by (simp add: ebind_def)
      then show ?thesis using Cons.IH [OF i] by simp
    qed
  qed
qed

lemma harvest_loop_inv:
  "harvest_inv st \<Longrightarrow> harvest_loop fetch mr ps nf start items st = Inr st' \<Longrightarrow> harvest_inv st'"
proof (induction fetch mr ps nf start items st rule: harvest_loop.induct)
  case (1 fetch mr ps nf start items st)
  define nxt where "nxt = start + page_limit ps"
  have u: "harvest_loop fetch mr ps nf start items st =
     ebind (process_items mr items st) (\<lambda>s1.
       if int (written s1) \<ge> mr then Inr s1
       else if int nxt \<ge> nf then Inr s1
       else ebind (fetch nxt) (\<lambda>page.
              if fst page = [] then Inr s1
              else harvest_loop fetch mr ps nf nxt (fst page) s1))"
    unfolding nxt_def by (rule harvest_loop.simps)
  from "1.prems"(2) u obtain s1 where s1: "process_items mr items st = Inr s1"
    by (cases "process_items mr items st") (auto simp: ebind_def)
  have i1: "harvest_inv s1" using "1.prems"(1) s1 by (rule process_items_inv)
  have v: "(if int (written s1) \<ge> mr then Inr s1
       else if int nxt \<ge> nf then Inr s1
       else ebind (fetch nxt) (\<lambda>page.
              if fst page = [] then Inr s1
              else harvest_loop fetch mr ps nf nxt (fst page) s1)) = Inr st'"
    using "1.prems"(2) u s1 by (simp only: ebind_def sum.case)
  show ?case
  proof (cases "int (written s1) \<ge> mr \<or> int nxt \<ge> nf")
    case True
    then have "st' = s1" using v by (auto split: if_splits)
    then show ?thesis using i1 by simp
  next
    case False
    then have a: "\<not> mr \<le> int (written s1)" and b: "\<not> nf \<le> int nxt" by auto
    from v a b obtain page where p: "fetch nxt = Inr page"
      by (cases "fetch nxt") (auto simp: ebind_def)
    show ?thesis
    proof (cases "fst page = []")
      case True
      then have "st' = s1" using v a b p by (auto simp: ebind_def)
      then show ?thesis using i1 by simp
    next
      case F2: False
      then have "harvest_loop fetch mr ps nf nxt (fst page) s1 = Inr st'"
        using v a b p by (simp add: ebind_def)
      then show ?thesis
        using "1.IH" [OF s1 a b [unfolded nxt_def] p [unfolded nxt_def] F2 i1] by (simp add: nxt_def)
    qed
  qed
qed

lemma harvest_rows_inv: "harvest_rows fetch mr ps = Inr st \<Longrightarrow> harvest_inv st"
proof -
  assume a: "harvest_rows fetch mr ps = Inr st"
  then obtain page where "fetch 0 = Inr page"
    by (cases "fetch 0") (auto simp: harvest_rows_def ebind_def)
  then have "harvest_loop fetch mr ps (snd page) 0 (fst page) start_state = Inr st"
    using a by (simp add: harvest_rows_def ebind_def)
  then show ?thesis using inv_start harvest_loop_inv by blast
qed

lemma duplicate_dropped:
  "row_from_item it = Inr r \<Longrightarrow> row_key r \<in> seen_keys st \<Longrightarrow>
   process_items mr (it # its) st = process_items mr its st"
  by (simp add: ebind_def)

lemma accept_new:
  "row_from_item it = Inr r \<Longrightarrow> row_key r \<notin> seen_keys st \<Longrightarrow>
   process_items mr [it] st = Inr (accept st r)"
  by (simp add: ebind_def Let_def)

lemma two_records:
  assumes "row_from_item a = Inr ra" and "row_from_item b = Inr rb"
    and "hollis_number ra = hollis_number rb" and "hollis_number ra \<noteq> []"
  shows "\<exists>st. process_items mr [a, b] start_state = Inr st \<and> rows st = [ra]"
proof -
  have k: "row_key rb = row_key ra" using assms(3,4) by (simp add: row_key_def)
  show ?thesis using assms(1,2) k
    by (simp add: ebind_def accept_def start_state_def Let_def)
qed

text \<open>
  C4: the key of a row is its HOLLIS number when that is not empty, and otherwise the pair
  of its identifier and its permalink. A record whose key has been seen is dropped: the
  loop goes on with the state unchanged (rows, written count, maxima and seen keys). A record
  whose key is new is accepted. After any harvest the keys of the rows are pairwise
  distinct, they are the seen keys, and the written count is the number of rows. Two
  records with the same HOLLIS number (not empty) give one row, the first.
\<close>

theorem harvest_dedup:
  "row_key r = (if hollis_number r \<noteq> [] then HollisKey (hollis_number r)
                else PairKey (row_identifier r) (permalink r)) \<and>
   (row_from_item it = Inr r \<and> row_key r \<in> seen_keys st \<longrightarrow>
      process_items mr (it # its) st = process_items mr its st) \<and>
   (row_from_item it = Inr r \<and> row_key r \<notin> seen_keys st \<longrightarrow>
      process_items mr [it] st = Inr (accept st r)) \<and>
   (harvest_rows fetch mr ps = Inr final \<longrightarrow>
      distinct (map row_key (rows final)) \<and> seen_keys final = set (map row_key (rows final)) \<and>
      written final = length (rows final)) \<and>
   (row_from_item a = Inr ra \<and> row_from_item b = Inr rb \<and>
    hollis_number ra = hollis_number rb \<and> hollis_number ra \<noteq> [] \<longrightarrow>
      (\<exists>s. process_items mr [a, b] start_state = Inr s \<and> rows s = [ra]))"
proof -
  have c1: "row_key r = (if hollis_number r \<noteq> [] then HollisKey (hollis_number r)
                else PairKey (row_identifier r) (permalink r))"
    by (rule row_key_def)
  have c2: "row_from_item it = Inr r \<and> row_key r \<in> seen_keys st \<longrightarrow>
      process_items mr (it # its) st = process_items mr its st"
    using duplicate_dropped by blast
  have c3: "row_from_item it = Inr r \<and> row_key r \<notin> seen_keys st \<longrightarrow>
      process_items mr [it] st = Inr (accept st r)"
    using accept_new by blast
  have c4: "harvest_rows fetch mr ps = Inr final \<longrightarrow>
      distinct (map row_key (rows final)) \<and> seen_keys final = set (map row_key (rows final)) \<and>
      written final = length (rows final)"
    using harvest_rows_inv [of fetch mr ps final] by (simp add: harvest_inv_def)
  have c5: "row_from_item a = Inr ra \<and> row_from_item b = Inr rb \<and>
    hollis_number ra = hollis_number rb \<and> hollis_number ra \<noteq> [] \<longrightarrow>
      (\<exists>s. process_items mr [a, b] start_state = Inr s \<and> rows s = [ra])"
    using two_records by blast
  show ?thesis by (intro conjI) (rule c1 c2 c3 c4 c5)+
qed

theorem harvest_dedup_witness:
  "(case harvest_rows ex_fetch 2000 2 of
      Inl e \<Rightarrow> False
    | Inr st \<Rightarrow> map hollis_number (rows st) = [ascii ''990012345670203941'', []] \<and>
                distinct (map row_key (rows st)) \<and> written st = 2) \<and>
   (case (row_from_item ex_item1, row_from_item ex_item2) of
      (Inr r1, Inr r2) \<Rightarrow> hollis_number r1 = hollis_number r2 \<and> hollis_number r1 \<noteq> [] \<and> title r1 \<noteq> title r2 \<and>
         (case process_items 2000 [ex_item1, ex_item2] start_state of
            Inr s \<Rightarrow> rows s = [r1] | Inl e \<Rightarrow> False)
    | _ \<Rightarrow> False)"
proof -
  have a: "case harvest_rows ex_fetch 2000 2 of
      Inl e \<Rightarrow> False
    | Inr st \<Rightarrow> map hollis_number (rows st) = [ascii ''990012345670203941'', []] \<and> written st = 2"
    by code_simp
  then obtain st where st: "harvest_rows ex_fetch 2000 2 = Inr st"
    by (cases "harvest_rows ex_fetch 2000 2") auto
  have d: "distinct (map row_key (rows st))"
    using harvest_dedup [where fetch = ex_fetch and mr = 2000 and ps = 2 and final = st] st
    by blast
  have b: "case (row_from_item ex_item1, row_from_item ex_item2) of
      (Inr r1, Inr r2) \<Rightarrow> hollis_number r1 = hollis_number r2 \<and> hollis_number r1 \<noteq> [] \<and> title r1 \<noteq> title r2
    | _ \<Rightarrow> False"
    by code_simp
  then obtain r1 r2 where r: "row_from_item ex_item1 = Inr r1" "row_from_item ex_item2 = Inr r2"
    by (cases "row_from_item ex_item1"; cases "row_from_item ex_item2") auto
  then have h: "hollis_number r1 = hollis_number r2" "hollis_number r1 \<noteq> []" "title r1 \<noteq> title r2"
    using b by auto
  obtain s where "process_items 2000 [ex_item1, ex_item2] start_state = Inr s" "rows s = [r1]"
    using two_records [OF r h(1,2)] by blast
  then show ?thesis using a st d r h by simp
qed

subsection \<open>The output table\<close>

lemma nat_of_str_snoc: "nat_of_str (s @ [c]) = 10 * nat_of_str s + nat (c - 48)"
  by (simp add: nat_of_str_def)

lemma nat_of_str_str_nat: "nat_of_str (str_nat n) = n"
proof (induction n rule: str_nat.induct)
  case (1 n)
  show ?case
  proof (cases "n < 10")
    case True
    then show ?thesis by (subst str_nat.simps) (simp add: nat_of_str_def)
  next
    case False
    then show ?thesis using "1.IH"
      by (subst str_nat.simps) (simp add: nat_of_str_snoc)
  qed
qed

lemma str_nat_inj: "str_nat m = str_nat n \<Longrightarrow> m = n"
  using nat_of_str_str_nat by metis

lemma distinct_numbered: "distinct (map (\<lambda>i. p @ str_nat i) [a..<b])"
  by (auto simp: distinct_map inj_on_def dest: str_nat_inj)

lemma ascii_eq_iff: "ascii a = ascii b \<longleftrightarrow> a = b"
  unfolding ascii_def by (rule inj_map_eq_map) (simp add: inj_on_def)

lemma base_not_numbered:
  "k \<in> set BASE_COLUMNS \<Longrightarrow> k \<noteq> ascii ''toc'' @ s \<and> k \<noteq> ascii ''note'' @ s"
proof -
  assume k: "k \<in> set BASE_COLUMNS"
  have "list_all (\<lambda>k. take 2 k \<noteq> ascii ''to'' \<and> take 2 k \<noteq> ascii ''no'') BASE_COLUMNS"
    by code_simp
  then have "take 2 k \<noteq> ascii ''to'' \<and> take 2 k \<noteq> ascii ''no''"
    using k by (simp add: list_all_iff)
  moreover have "take 2 (ascii ''toc'' @ s) = ascii ''to''" "take 2 (ascii ''note'' @ s) = ascii ''no''"
    by (simp_all add: ascii_def)
  ultimately show ?thesis by metis
qed

lemma distinct_base: "distinct BASE_COLUMNS"
  by (simp add: BASE_COLUMNS_def ascii_eq_iff)

lemma distinct_three:
  "distinct bs \<Longrightarrow> distinct (map f xs) \<Longrightarrow> distinct (map g ys) \<Longrightarrow>
   (\<And>b x. b \<in> set bs \<Longrightarrow> b \<noteq> f x \<and> b \<noteq> g x) \<Longrightarrow> (\<And>x y. f x \<noteq> g y) \<Longrightarrow>
   distinct (bs @ map f xs @ map g ys)"
  by auto

lemma distinct_fieldnames: "distinct (fieldnames mt mn)"
  unfolding fieldnames_def
proof (rule distinct_three)
  show "distinct BASE_COLUMNS" by (rule distinct_base)
  show "distinct (map (\<lambda>i. (ascii ''toc'') @ str_nat i) [1..<mt + 1])" by (rule distinct_numbered)
  show "distinct (map (\<lambda>i. (ascii ''note'') @ str_nat i) [1..<mn + 1])" by (rule distinct_numbered)
  show "b \<noteq> ascii ''toc'' @ str_nat x \<and> b \<noteq> ascii ''note'' @ str_nat x" if "b \<in> set BASE_COLUMNS" for b x
    using that base_not_numbered by blast
  show "ascii ''toc'' @ str_nat x \<noteq> ascii ''note'' @ str_nat y" for x y by (simp add: ascii_def)
qed

lemma get_or_empty_distinct:
  "distinct (map fst A) \<Longrightarrow> map (get_or_empty A) (map fst A) = map snd A"
proof -
  assume d: "distinct (map fst A)"
  have "get_or_empty A (fst kv) = snd kv" if "kv \<in> set A" for kv
  proof -
    have "map_of A (fst kv) = Some (snd kv)" using d that by (intro map_of_is_SomeI) simp_all
    then show ?thesis by (simp add: get_or_empty_def)
  qed
  then show ?thesis by simp
qed

lemma line_eq:
  "map (get_or_empty (out_row mt mn r)) (fieldnames mt mn) = csv_line mt mn r"
proof -
  define A where "A = map (\<lambda>k. (k, get_or_empty (row_fields r) k)) BASE_COLUMNS
              @ map (\<lambda>i. (ascii ''toc'' @ str_nat i, slot (row_tocs r) i)) [1..<mt + 1]
              @ map (\<lambda>i. (ascii ''note'' @ str_nat i, slot (row_notes r) i)) [1..<mn + 1]"
  have k: "map fst A = fieldnames mt mn"
    unfolding A_def fieldnames_def by (simp only: map_append map_map o_def fst_conv list.map_ident)
  have v: "map snd A = csv_line mt mn r"
    unfolding A_def csv_line_def by (simp only: map_append map_map o_def snd_conv)
  have d: "distinct (map fst A)" using distinct_fieldnames k by simp
  have "out_row mt mn r = dict_of A" unfolding out_row_def A_def by (rule refl)
  then have "out_row mt mn r = A" using dict_of_distinct [OF d] by simp
  then show ?thesis using get_or_empty_distinct [OF d] k v by simp
qed

lemma csv_table_eq:
  "csv_table st = (fieldnames (max_tocs st) (max_notes st),
                   map (csv_line (max_tocs st) (max_notes st)) (rows st))"
  by (simp add: csv_table_def line_eq)

lemma csv_line_length: "length (csv_line mt mn r) = length BASE_COLUMNS + mt + mn"
  by (simp add: csv_line_def)

lemma note_columns_3:
  "drop (length BASE_COLUMNS + mt) (fieldnames mt 3) = [ascii ''note1'', ascii ''note2'', ascii ''note3'']"
proof -
  have "[1..<3 + 1] = [1, 2, 3::nat]" by (simp add: upt_rec)
  moreover have "str_nat 1 = ascii ''1''" "str_nat 2 = ascii ''2''" "str_nat 3 = ascii ''3''" by code_simp+
  moreover have "ascii ''note'' @ ascii ''1'' = ascii ''note1''" "ascii ''note'' @ ascii ''2'' = ascii ''note2''"
    "ascii ''note'' @ ascii ''3'' = ascii ''note3''" by (simp_all add: ascii_def)
  ultimately show ?thesis by (simp add: fieldnames_def)
qed

text \<open>
  C5: after a harvest the two maxima are the greatest lengths of the table-of-contents and
  notes lists of the accepted rows (0 when there is no row). The header is the base columns,
  then \<open>toc1\<close> up to the first maximum, then \<open>note1\<close> up to the second; every line has
  as many values as the header has columns: the row's base values, then its numbered slots,
  where a slot beyond the length of the row's list is the empty string. When the maximum
  notes length is 3 the note columns are \<open>note1\<close>, \<open>note2\<close>, \<open>note3\<close>.
\<close>

theorem csv_shape:
  "(harvest_rows fetch mr ps = Inr st \<longrightarrow>
      max_tocs st = Max (insert 0 (set (map (\<lambda>r. length (row_tocs r)) (rows st)))) \<and>
      max_notes st = Max (insert 0 (set (map (\<lambda>r. length (row_notes r)) (rows st))))) \<and>
   csv_table st =
     (BASE_COLUMNS @ map (\<lambda>i. (ascii ''toc'') @ str_nat i) [1..<max_tocs st + 1]
                   @ map (\<lambda>i. (ascii ''note'') @ str_nat i) [1..<max_notes st + 1],
      map (csv_line (max_tocs st) (max_notes st)) (rows st)) \<and>
   (\<forall>line \<in> set (snd (csv_table st)). length line = length (fst (csv_table st))) \<and>
   (length xs < i \<longrightarrow> slot xs i = []) \<and>
   (1 \<le> i \<and> i \<le> length xs \<longrightarrow> slot xs i = xs ! (i - 1)) \<and>
   (max_notes st = 3 \<longrightarrow>
      drop (length BASE_COLUMNS + max_tocs st) (fst (csv_table st)) = [ascii ''note1'', ascii ''note2'', ascii ''note3''])"
proof -
  have c1: "harvest_rows fetch mr ps = Inr st \<longrightarrow>
      max_tocs st = Max (insert 0 (set (map (\<lambda>r. length (row_tocs r)) (rows st)))) \<and>
      max_notes st = Max (insert 0 (set (map (\<lambda>r. length (row_notes r)) (rows st))))"
    using harvest_rows_inv [of fetch mr ps st] by (simp add: harvest_inv_def max_len_Max)
  have c2: "csv_table st =
     (BASE_COLUMNS @ map (\<lambda>i. (ascii ''toc'') @ str_nat i) [1..<max_tocs st + 1]
                   @ map (\<lambda>i. (ascii ''note'') @ str_nat i) [1..<max_notes st + 1],
      map (csv_line (max_tocs st) (max_notes st)) (rows st))"
    unfolding csv_table_eq fieldnames_def by (rule refl)
  have c3: "\<forall>line \<in> set (snd (csv_table st)). length line = length (fst (csv_table st))"
    unfolding csv_table_eq by (auto simp: csv_line_length fieldnames_def)
  have c4: "length xs < i \<longrightarrow> slot xs i = []" by (simp add: slot_def)
  have c5: "1 \<le> i \<and> i \<le> length xs \<longrightarrow> slot xs i = xs ! (i - 1)" by (auto simp: slot_def)
  have c6: "max_notes st = 3 \<longrightarrow>
      drop (length BASE_COLUMNS + max_tocs st) (fst (csv_table st)) = [ascii ''note1'', ascii ''note2'', ascii ''note3'']"
    using note_columns_3 [of "max_tocs st"] by (simp add: csv_table_eq)
  show ?thesis by (intro conjI) (rule c1 c2 c3 c4 c5 c6)+
qed

theorem csv_shape_witness:
  "(case harvest_rows ex_fetch 2000 2 of
      Inl e \<Rightarrow> False
    | Inr st \<Rightarrow>
        map (\<lambda>r. length (row_notes r)) (rows st) = [3, 1] \<and> max_notes st = 3 \<and> max_tocs st = 1 \<and>
        fst (csv_table st) = BASE_COLUMNS @ [ascii ''toc1'', ascii ''note1'', ascii ''note2'', ascii ''note3''] \<and>
        map (drop (length BASE_COLUMNS)) (snd (csv_table st)) =
          [[[], ascii ''a'', ascii ''b'', ascii ''c''], [ascii ''ch. 1'', ascii ''bibliography: p. 9'', [], []]] \<and>
        list_all (\<lambda>line. length line = 25) (snd (csv_table st)))"
proof -
  have a: "case harvest_rows ex_fetch 2000 2 of
      Inl e \<Rightarrow> False
    | Inr st \<Rightarrow>
        map (\<lambda>r. length (row_notes r)) (rows st) = [3, 1] \<and> max_notes st = 3 \<and> max_tocs st = 1 \<and>
        fst (csv_table st) = BASE_COLUMNS @ [ascii ''toc1'', ascii ''note1'', ascii ''note2'', ascii ''note3''] \<and>
        map (drop (length BASE_COLUMNS)) (snd (csv_table st)) =
          [[[], ascii ''a'', ascii ''b'', ascii ''c''], [ascii ''ch. 1'', ascii ''bibliography: p. 9'', [], []]]"
    by code_simp
  then obtain st where st: "harvest_rows ex_fetch 2000 2 = Inr st"
    by (cases "harvest_rows ex_fetch 2000 2") auto
  have f: "fst (csv_table st) = BASE_COLUMNS @ [ascii ''toc1'', ascii ''note1'', ascii ''note2'', ascii ''note3'']"
    using a st by simp
  have "\<forall>line \<in> set (snd (csv_table st)). length line = length (fst (csv_table st))"
    using csv_shape [where st = st] by blast
  then have "list_all (\<lambda>line. length line = 25) (snd (csv_table st))"
    unfolding f by (simp add: list_all_iff BASE_COLUMNS_def)
  then show ?thesis using a st by simp
qed

end
